theory Spec2Isabelle
  imports Main "HOL-Library.Word"
begin

unbundle bit_operations_syntax

section \<open>Diagnostics shared by the operations of sql/sql_view.cc\<close>

text \<open>
  Errors raised with \<^verbatim>\<open>my_error\<close>/\<^verbatim>\<open>my_message\<close> and warnings pushed with
  \<^verbatim>\<open>push_warning\<close> are recorded as values, in the order the code raises them.
  The constructors keep the server's error names; the arguments are the identifiers the
  message is formatted with.
\<close>

datatype mysql_error =
    ER_VIEW_SELECT_CLAUSE string
  | ER_VIEW_SELECT_DERIVED
  | ER_VIEW_SELECT_VARIABLE
  | ER_TABLEACCESS_DENIED_ERROR string
  | ER_COLUMNACCESS_DENIED_ERROR string string
  | ER_VIEW_SELECT_TMPTABLE string
  | ER_NO_SUCH_TABLE string string
  | ER_VIEW_WRONG_LIST
  | ER_DUP_FIELDNAME string
  | ER_TABLE_EXISTS_ERROR string
  | ER_WRONG_OBJECT string string string
  | ER_VIEW_NONUPD_CHECK string string
  | ER_BAD_TABLE_ERROR string
  | ER_VIEW_NO_EXPLAIN
  | ER_COLLABORATOR string

datatype mysql_warning =
    ER_WARN_VIEW_MERGE
  | ER_WARN_VIEW_WITHOUT_KEY
  | NOTE_BAD_TABLE_ERROR string

section \<open>The record files and the cheap type probe\<close>

text \<open>
  A file of the data directory, as \<^verbatim>\<open>my_open\<close> and \<^verbatim>\<open>my_read\<close> see it: opening
  may fail, reading an opened file may fail (\<^verbatim>\<open>MY_FILE_ERROR\<close>), otherwise the
  bytes of the file are read. A path that is not in the map does not exist
  (\<^verbatim>\<open>access(path, F_OK)\<close> is non-zero).
\<close>

datatype file_entry = OpenFails | ReadFails | Contents string

type_synonym filesystem = "string \<rightharpoonup> file_entry"

datatype frm_type_enum = FRMTYPE_ERROR | FRMTYPE_TABLE | FRMTYPE_VIEW

definition view_header :: string where
  "view_header = ''TYPE=VIEW'' @ [CHR 0x0A]"

text \<open>\<^verbatim>\<open>char header[10]\<close>: \<^verbatim>\<open>sizeof(header)\<close>.\<close>

definition sizeof_header :: nat where
  "sizeof_header = 10"

text \<open>
  \<^verbatim>\<open>my_read(file, header, sizeof(header), MYF(MY_WME))\<close> fills the buffer with the first
  bytes of the file and returns how many it read.
\<close>

definition my_read :: "string \<Rightarrow> nat \<Rightarrow> string" where
  "my_read bytes count = take count bytes"

definition mysql_frm_type :: "filesystem \<Rightarrow> string \<Rightarrow> frm_type_enum" where
  "mysql_frm_type fs path =
     (case fs path of
        None \<Rightarrow> FRMTYPE_ERROR
      | Some OpenFails \<Rightarrow> FRMTYPE_ERROR
      | Some ReadFails \<Rightarrow> FRMTYPE_ERROR
      | Some (Contents bytes) \<Rightarrow>
          (let header = my_read bytes sizeof_header;
               length = length header
           in if length < sizeof_header \<or> header = view_header
              then FRMTYPE_VIEW
              else FRMTYPE_TABLE))"

section \<open>DROP VIEW\<close>

text \<open>
  The part of the thread and server state (\<^verbatim>\<open>THD\<close>, its \<^verbatim>\<open>LEX\<close> and system
  variables, the data directory, the query cache) that the operations read and write.
  \<^verbatim>\<open>delete_fails\<close> says for which paths \<^verbatim>\<open>my_delete\<close> returns an error;
  \<^verbatim>\<open>invalidated\<close> lists the calls of \<^verbatim>\<open>query_cache_invalidate3\<close>;
  \<^verbatim>\<open>select_limit\<close> is \<^verbatim>\<open>thd->lex->select_lex.select_limit\<close> and
  \<^verbatim>\<open>updatable_views_with_limit\<close> is \<^verbatim>\<open>thd->variables.updatable_views_with_limit\<close>;
  \<^verbatim>\<open>thd_query\<close> is the statement text \<^verbatim>\<open>thd->query\<close>. An error raised through
  \<^verbatim>\<open>my_error\<close> sets \<^verbatim>\<open>thd->net.report_error\<close>, so that flag is read as
  \<^verbatim>\<open>errors thd \<noteq> []\<close>.
\<close>

datatype enum_sql_command =
  SQLCOM_SELECT | SQLCOM_INSERT | SQLCOM_UPDATE | SQLCOM_DELETE | SQLCOM_SHOW_CREATE
  | SQLCOM_CREATE_VIEW | SQLCOM_DROP_VIEW

record THD =
  warnings :: "mysql_warning list"
  errors :: "mysql_error list"
  ok_sent :: bool
  files :: filesystem
  delete_fails :: "string \<Rightarrow> bool"
  invalidated :: "(string \<times> string) list"
  drop_if_exists :: bool
  sql_command :: enum_sql_command
  select_limit :: nat
  updatable_views_with_limit :: bool
  thd_query :: string

text \<open>
  \<^verbatim>\<open>strxnmov(path, FN_REFLEN, mysql_data_home, "/", view->db, "/", view->table_name,
  reg_ext, NullS)\<close>; paths are taken to fit \<^verbatim>\<open>FN_REFLEN\<close>, and
  \<^verbatim>\<open>unpack_filename\<close> to leave them as they are.
\<close>

definition reg_ext :: string where
  "reg_ext = ''.frm''"

definition frm_path :: "string \<Rightarrow> string \<Rightarrow> string \<Rightarrow> string" where
  "frm_path data_home db table_name = data_home @ ''/'' @ db @ ''/'' @ table_name @ reg_ext"

text \<open>\<^verbatim>\<open>my_snprintf(name, sizeof(name), "%s.%s", view->db, view->table_name)\<close>\<close>

definition dotted_name :: "string \<Rightarrow> string \<Rightarrow> string" where
  "dotted_name db table_name = db @ ''.'' @ table_name"

text \<open>
  The result of one round of the loop over the names: the loop goes on
  (\<^verbatim>\<open>continue\<close> or the end of the body) or leaves through \<^verbatim>\<open>goto err\<close>.
  The local \<^verbatim>\<open>bool type\<close> is declared outside the loop and is assigned only when
  the file exists, so it is threaded through the rounds.
\<close>

datatype 'a round = Continue 'a | Abort 'a

definition drop_view_round ::
  "string \<Rightarrow> (string \<times> string) \<Rightarrow> bool \<times> THD \<Rightarrow> (bool \<times> THD) round" where
  "drop_view_round data_home view ts =
     (let type0 = fst ts; thd = snd ts;
          db = fst view; table_name = snd view;
          path = frm_path data_home db table_name;
          absent = (files thd path = None);
          type = (if absent then type0 else mysql_frm_type (files thd) path \<noteq> FRMTYPE_VIEW)
      in if absent \<or> type then
           (let name = dotted_name db table_name
            in if drop_if_exists thd
               then Continue (type, thd\<lparr>warnings := warnings thd @ [NOTE_BAD_TABLE_ERROR name]\<rparr>)
               else if type
               then Abort (type, thd\<lparr>errors := errors thd @ [ER_WRONG_OBJECT db table_name ''VIEW'']\<rparr>)
               else Abort (type, thd\<lparr>errors := errors thd @ [ER_BAD_TABLE_ERROR name]\<rparr>))
         else if delete_fails thd path
         then Abort (type, thd\<lparr>errors := errors thd @ [ER_COLLABORATOR ''my_delete'']\<rparr>)
         else Continue (type, thd\<lparr>files := (files thd)(path := None),
                                    invalidated := invalidated thd @ [view]\<rparr>))"

fun drop_view_loop ::
  "string \<Rightarrow> (string \<times> string) list \<Rightarrow> bool \<times> THD \<Rightarrow> (bool \<times> THD) round" where
  "drop_view_loop data_home [] ts = Continue ts"
| "drop_view_loop data_home (view # views) ts =
     (case drop_view_round data_home view ts of
        Abort ts' \<Rightarrow> Abort ts'
      | Continue ts' \<Rightarrow> drop_view_loop data_home views ts')"

text \<open>Returns \<^verbatim>\<open>FALSE\<close> for success and \<^verbatim>\<open>TRUE\<close> for an error, with the state.\<close>

definition mysql_drop_view :: "string \<Rightarrow> (string \<times> string) list \<Rightarrow> THD \<Rightarrow> bool \<times> THD" where
  "mysql_drop_view data_home views thd =
     (case drop_view_loop data_home views (False, thd) of
        Continue ts \<Rightarrow> (False, (snd ts)\<lparr>ok_sent := True\<rparr>)
      | Abort ts \<Rightarrow> (True, snd ts))"

text \<open>A data directory holding one file that is not a view record, and a statement with \<^verbatim>\<open>IF EXISTS\<close>.\<close>

definition drop_example :: THD where
  "drop_example = \<lparr>warnings = [], errors = [], ok_sent = False,
     files = [''/data/db/t.frm'' \<mapsto> Contents ''0123456789abcdef''],
     delete_fails = (\<lambda>_. False), invalidated = [], drop_if_exists = True,
     sql_command = SQLCOM_DROP_VIEW, select_limit = 0, updatable_views_with_limit = False,
     thd_query = []\<rparr>"

section \<open>The bounded-mutation key check\<close>

text \<open>
  Fields (\<^verbatim>\<open>Field *\<close>) are compared by address; an address is a number here.
  An item of a select list is a field, a reference to another item, or any other
  expression.

  Modelled from the spec: \<^verbatim>\<open>Item::filed_for_view_update\<close> (declared in item.h, which is
  not among the sources) returns the field when the expression is a direct, unmodified
  reference to a single underlying storage column, and null otherwise.
\<close>

datatype Item = Item_field nat | Item_ref Item | Item_func string "Item list"

fun filed_for_view_update :: "Item \<Rightarrow> nat option" where
  "filed_for_view_update (Item_field f) = Some f"
| "filed_for_view_update (Item_ref item) = filed_for_view_update item"
| "filed_for_view_update (Item_func name args) = None"

text \<open>
  \<^verbatim>\<open>KEY\<close>: the flags and the key parts (\<^verbatim>\<open>key_part[0 .. key_parts - 1]\<close>, each with
  its field). \<^verbatim>\<open>TABLE\<close>: the keys (\<^verbatim>\<open>key_info[0 .. s->keys - 1]\<close>) and the
  null-terminated array of fields. (\<^verbatim>\<open>tr\<close> stands for the local \<^verbatim>\<open>trans\<close> below.) The two flag values are those of include/my_base.h.
\<close>

record KEY =
  flags :: "32 word"
  key_part :: "nat list"

record TABLE =
  key_info :: "KEY list"
  field :: "nat list"

definition HA_NOSAME :: "32 word" where
  "HA_NOSAME = 1"

definition HA_NULL_PART_KEY :: "32 word" where
  "HA_NULL_PART_KEY = 64"

text \<open>
  The \<^verbatim>\<open>TABLE_LIST\<close> passed to \<^verbatim>\<open>check_key_in_view\<close>. A node that is a view
  (\<^verbatim>\<open>view != 0\<close>) is seen through its translation table
  \<^verbatim>\<open>field_translation[0 .. view->select_lex.item_list.elements - 1]\<close>;
  \<^verbatim>\<open>belong_to_view\<close>, when set, points to such a node.
\<close>

record TABLE_LIST_k =
  k_view :: "Item list option"
  k_belong_to_view :: "Item list option"
  k_table :: TABLE

text \<open>
  \<^verbatim>\<open>for (k= 0; k < elements_in_view; k++) if (... field->field == f) break;\<close>
  gives the value of \<^verbatim>\<open>k\<close> after the loop.
\<close>

fun find_field :: "Item list \<Rightarrow> nat \<Rightarrow> nat" where
  "find_field [] f = 0"
| "find_field (item # tr) f =
     (if filed_for_view_update item = Some f then 0 else Suc (find_field tr f))"

text \<open>
  The \<^verbatim>\<open>for (;;)\<close> loop over the parts of one key: \<^verbatim>\<open>True\<close> when the function
  returns from inside it (a usable key), \<^verbatim>\<open>False\<close> when it leaves with
  \<^verbatim>\<open>break\<close>. The loop reads the first part before it compares with
  \<^verbatim>\<open>key_part_end\<close>; a key of the server has at least one part, and a key with none is
  answered here as not usable.
\<close>

fun key_parts_loop :: "Item list \<Rightarrow> nat list \<Rightarrow> bool" where
  "key_parts_loop tr [] = False"
| "key_parts_loop tr (part # parts) =
     (if find_field tr part = length tr then False
      else if parts = [] then True
      else key_parts_loop tr parts)"

fun keys_loop :: "Item list \<Rightarrow> KEY list \<Rightarrow> bool" where
  "keys_loop tr [] = False"
| "keys_loop tr (key # keys) =
     (if flags key AND (HA_NOSAME OR HA_NULL_PART_KEY) = HA_NOSAME \<and> key_parts_loop tr (key_part key)
      then True
      else keys_loop tr keys)"

fun fields_loop :: "'a THD_scheme \<Rightarrow> Item list \<Rightarrow> nat list \<Rightarrow> bool \<times> 'a THD_scheme" where
  "fields_loop thd tr [] = (False, thd)"
| "fields_loop thd tr (f # fs) =
     (if find_field tr f = length tr
      then (if updatable_views_with_limit thd
            then (False, thd\<lparr>warnings := warnings thd @ [ER_WARN_VIEW_WITHOUT_KEY]\<rparr>)
            else (True, thd))
      else fields_loop thd tr fs)"

text \<open>Returns \<^verbatim>\<open>FALSE\<close> (safe) or \<^verbatim>\<open>TRUE\<close> (no key and not all fields), with the state.\<close>

definition check_key_in_view :: "'a THD_scheme \<Rightarrow> TABLE_LIST_k \<Rightarrow> bool \<times> 'a THD_scheme" where
  "check_key_in_view thd view =
     (if (k_view view = None \<and> k_belong_to_view view = None) \<or>
         sql_command thd = SQLCOM_INSERT \<or>
         select_limit thd = 0
      then (False, thd)
      else
        (let table = k_table view;
             tr = (case k_belong_to_view view of
                        Some top_view \<Rightarrow> top_view
                      | None \<Rightarrow> (case k_view view of Some own \<Rightarrow> own | None \<Rightarrow> []))
         in if keys_loop tr (key_info table) then (False, thd)
            else fields_loop thd tr (field table)))"

subsection \<open>The coverage conditions in the words of the specification\<close>

text \<open>
  The exposed columns of a view are the fields its output expressions refer to directly.
  A key is unique and all-not-null when its unique flag is set and its
  nullable-part flag is clear. The exposed columns cover a key when every part of it is
  exposed, and cover the table when every field of it is exposed.
\<close>

definition exposed_columns :: "Item list \<Rightarrow> nat list" where
  "exposed_columns tr = List.map_filter filed_for_view_update tr"

definition unique_not_null_key :: "KEY \<Rightarrow> bool" where
  "unique_not_null_key key = (bit (flags key) 0 \<and> \<not> bit (flags key) 6)"

definition covers_key :: "Item list \<Rightarrow> TABLE \<Rightarrow> bool" where
  "covers_key tr table =
     (\<exists>key \<in> set (key_info table). unique_not_null_key key \<and>
        (\<forall>part \<in> set (key_part key). part \<in> set (exposed_columns tr)))"

definition covers_all_columns :: "Item list \<Rightarrow> TABLE \<Rightarrow> bool" where
  "covers_all_columns tr table = (\<forall>f \<in> set (field table). f \<in> set (exposed_columns tr))"

text \<open>The translation table the check uses: that of the top view when there is one.\<close>

definition translation_of :: "TABLE_LIST_k \<Rightarrow> Item list" where
  "translation_of view =
     (case k_belong_to_view view of
        Some top_view \<Rightarrow> top_view
      | None \<Rightarrow> (case k_view view of Some own \<Rightarrow> own | None \<Rightarrow> []))"

text \<open>
  A table with the columns 1, 2 and 3, a unique not-null key on column 1 and a
  non-unique key on column 2; an UPDATE with a LIMIT; a view exposing the
  columns 1 and 2, and a view exposing column 2 and a computed expression.
\<close>

definition limit_thd :: THD where
  "limit_thd = \<lparr>warnings = [], errors = [], ok_sent = False, files = Map.empty,
     delete_fails = (\<lambda>_. False), invalidated = [], drop_if_exists = False,
     sql_command = SQLCOM_UPDATE, select_limit = 1, updatable_views_with_limit = False,
     thd_query = []\<rparr>"

definition table_abc :: TABLE where
  "table_abc = \<lparr>key_info = [\<lparr>flags = 0, key_part = [2]\<rparr>, \<lparr>flags = 1, key_part = [1]\<rparr>],
                field = [1, 2, 3]\<rparr>"

definition view_ab :: TABLE_LIST_k where
  "view_ab = \<lparr>k_view = Some [Item_field 1, Item_ref (Item_field 2)], k_belong_to_view = None,
              k_table = table_abc\<rparr>"

definition view_b :: TABLE_LIST_k where
  "view_b = \<lparr>k_view = Some [Item_field 2, Item_func ''count'' []], k_belong_to_view = None,
             k_table = table_abc\<rparr>"

section \<open>The statement tree at definition and at resolution time\<close>

datatype view_algorithm = VIEW_ALGORITHM_UNDEFINED | VIEW_ALGORITHM_TMPTABLE | VIEW_ALGORITHM_MERGE

datatype view_check = VIEW_CHECK_NONE | VIEW_CHECK_LOCAL | VIEW_CHECK_CASCADED

datatype enum_view_create_mode = VIEW_CREATE_NEW | VIEW_ALTER | VIEW_CREATE_OR_REPLACE

datatype sub_select_type = UNSPECIFIED_TYPE | DERIVED_TABLE_TYPE

text \<open>
  An entry of a select list (\<^verbatim>\<open>Item\<close>): its name, the expression, and for an entry
  that is a field reference the privileges the definer holds on the field
  (\<^verbatim>\<open>Item_field::have_privileges\<close>) and whether the table of the field is temporary
  (\<^verbatim>\<open>fld->field->table->s->tmp_table\<close>).
\<close>

record select_item =
  name :: string
  expr :: Item
  have_privileges :: "32 word"
  in_tmp_table :: bool

text \<open>
  \<^verbatim>\<open>SELECT_LEX\<close> and \<^verbatim>\<open>LEX\<close>. The type parameter is the type of a reference to a
  chain of \<^verbatim>\<open>TABLE_LIST\<close> nodes: at definition time the chain itself (a list, nothing is
  relinked there), at resolution time the address of the first node of the chain in the
  store (the chains are relinked in place). \<^verbatim>\<open>next_selects\<close> is the chain
  \<^verbatim>\<open>select_lex.next_select()\<close>, \<^verbatim>\<open>next_select()->next_select()\<close>, ... of the other
  selects of a union. The three \<^verbatim>\<open>can_...\<close> fields hold the answers of the methods
  \<^verbatim>\<open>can_be_merged()\<close>, \<^verbatim>\<open>can_use_merged()\<close> and \<^verbatim>\<open>can_not_use_merged()\<close> of
  sql_lex.cc on this \<^verbatim>\<open>LEX\<close>; \<^verbatim>\<open>has_inner_selects\<close> is
  \<^verbatim>\<open>&lex->select_lex != lex->all_selects_list\<close>; \<^verbatim>\<open>printed\<close> is what
  \<^verbatim>\<open>lex->unit.print\<close> gives.
\<close>

datatype global_link = Query_tables | Next_global_of nat

record 'tl SELECT_LEX =
  table_list :: 'tl
  item_list :: "select_item list"
  top_join_list :: "nat list"
  where_cond :: "Item option"
  options :: "32 word"
  linkage :: sub_select_type
  select_number :: nat

record 'tl LEX =
  proc_list_first :: bool
  result :: bool
  derived_tables :: "8 word"
  variables_used :: bool
  param_list_elements :: nat
  select_lex :: "'tl SELECT_LEX"
  next_selects :: "'tl SELECT_LEX list"
  has_inner_selects :: bool
  query_tables :: 'tl
  query_tables_last :: global_link
  view_list :: "string list"
  create_view_algorithm :: view_algorithm
  create_view_check :: view_check
  view_prepare_mode :: bool
  can_be_merged :: bool
  can_use_merged :: bool
  can_not_use_merged :: bool
  safe_to_cache_query :: bool
  subqueries :: bool
  describe :: bool
  printed :: string

text \<open>
  The fields of \<^verbatim>\<open>TABLE_LIST\<close> that hold names, the parameters of the view record
  (\<^verbatim>\<open>view_parameters\<close>) and what the table-open machinery found out about the
  reference. \<^verbatim>\<open>table_alias\<close> is the field \<^verbatim>\<open>alias\<close>; \<^verbatim>\<open>tmp_table\<close> is \<^verbatim>\<open>table->s->tmp_table != NO_TMP_TABLE\<close>.
  \<^verbatim>\<open>updatable_view\<close> is assigned only truth values.
\<close>

record TABLE_LIST =
  db :: string
  table_name :: string
  table_alias :: string
  query :: string
  md5 :: string
  updatable_view :: bool
  algorithm :: view_algorithm
  with_check :: view_check
  revision :: nat
  timestamp :: string
  file_version :: nat
  source :: string
  view :: "nat option LEX option"
  view_db :: string
  view_name :: string
  schema_table :: bool
  outer_join :: bool
  tmp_table :: bool

text \<open>
  A table reference at definition time: the node, its address (the same node is
  reached through the local and through the global chain), and the chain
  \<^verbatim>\<open>embedding\<close>, \<^verbatim>\<open>embedding->embedding\<close>, ... of the join nests around it.
\<close>

datatype table_ref = Table_ref (addr: nat) (node: TABLE_LIST) (embedding_up: "table_ref option")

fun outer_join_up :: "table_ref \<Rightarrow> bool" where
  "outer_join_up (Table_ref a tbl up) =
     (if outer_join tbl then True
      else (case up of None \<Rightarrow> False | Some up' \<Rightarrow> outer_join_up up'))"

section \<open>CREATE VIEW and ALTER VIEW\<close>

text \<open>
  The collaborators of the lifecycle operations, which are not part of sql_view.cc: the
  privilege checks (each answers \<^verbatim>\<open>TRUE\<close> when access is denied), the table-open
  machinery, the preparation of the select, the global read lock, the search in the
  global table list, and the reader and writer of definition files (parse_file.cc).
\<close>

datatype acl = CREATE_VIEW_ACL | DROP_ACL | SELECT_ACL | SHOW_VIEW_ACL

datatype parse_outcome = Parsed nat | Parse_error bool

text \<open>
  What \<^verbatim>\<open>File_parser::parse\<close> reads for the first \<^verbatim>\<open>required_view_parameters\<close>
  entries of \<^verbatim>\<open>view_parameters\<close>, in the order of that table.
\<close>

record view_parameter_values =
  p_query :: string
  p_md5 :: string
  p_updatable :: bool
  p_algorithm :: view_algorithm
  p_with_check :: view_check
  p_revision :: nat
  p_timestamp :: string

text \<open>
  A \<^verbatim>\<open>File_parser\<close>: \<^verbatim>\<open>ok()\<close>, \<^verbatim>\<open>type()\<close>, and what \<^verbatim>\<open>parse\<close> gives when it
  is asked for the revision alone and for the required parameters (\<^verbatim>\<open>None\<close> when
  it fails).
\<close>

record File_parser =
  ok :: bool
  file_type :: string
  parse_revision :: parse_outcome
  parse_parameters :: "view_parameter_values option"

record collaborators =
  mysql_data_home :: string
  check_access :: "acl \<Rightarrow> string \<Rightarrow> bool"
  grant_option :: bool
  check_grant :: "acl \<Rightarrow> TABLE_LIST \<Rightarrow> bool"
  check_some_access :: "TABLE_LIST \<Rightarrow> bool"
  get_column_grant :: "string \<Rightarrow> string \<Rightarrow> string \<Rightarrow> 32 word"
  VIEW_ANY_ACL :: "32 word"
  open_and_lock_tables :: "table_ref list LEX \<Rightarrow> table_ref list LEX option"
  unit_prepare :: "table_ref list LEX \<Rightarrow> bool"
  wait_if_global_read_lock :: bool
  find_table_in_global_list :: "table_ref list \<Rightarrow> string \<Rightarrow> string \<Rightarrow> bool"
  sql_parse_prepare :: "file_entry \<Rightarrow> File_parser option"
  calc_md5 :: "string \<Rightarrow> string"
  definition_file :: "TABLE_LIST \<Rightarrow> string"
  write_outcome :: "string \<Rightarrow> bool option"

text \<open>\<^verbatim>\<open>my_error\<close> and \<^verbatim>\<open>push_warning\<close>.\<close>

definition my_error :: "mysql_error \<Rightarrow> 'a THD_scheme \<Rightarrow> 'a THD_scheme" where
  "my_error e thd = thd\<lparr>errors := errors thd @ [e]\<rparr>"

definition push_warning :: "mysql_warning \<Rightarrow> 'a THD_scheme \<Rightarrow> 'a THD_scheme" where
  "push_warning w thd = thd\<lparr>warnings := warnings thd @ [w]\<rparr>"

definition report_error :: "'a THD_scheme \<Rightarrow> bool" where
  "report_error thd = (errors thd \<noteq> [])"

text \<open>\<^verbatim>\<open>strncmp(s1, s2, n) == 0\<close> on strings without a NUL byte.\<close>

definition strncmp_eq :: "string \<Rightarrow> string \<Rightarrow> nat \<Rightarrow> bool" where
  "strncmp_eq s1 s2 n = (take n s1 = take n s2)"

subsection \<open>mysql_register_view\<close>

text \<open>
  The block ``check old .frm'': an early return (\<^verbatim>\<open>Inl\<close>, with the return value) or
  the view with the revision number read from the existing record (\<^verbatim>\<open>Inr\<close>).
\<close>

definition check_old_frm ::
  "collaborators \<Rightarrow> 'a THD_scheme \<Rightarrow> TABLE_LIST \<Rightarrow> enum_view_create_mode
   \<Rightarrow> (int \<times> 'a THD_scheme) + TABLE_LIST" where
  "check_old_frm env thd vw mode =
     (case files thd (frm_path (mysql_data_home env) (db vw) (table_name vw)) of
        Some entry \<Rightarrow>
          if mode = VIEW_CREATE_NEW
          then Inl (- 1, my_error (ER_TABLE_EXISTS_ERROR (table_alias vw)) thd)
          else
            (case sql_parse_prepare env entry of
               None \<Rightarrow> Inl (1, my_error (ER_COLLABORATOR ''sql_parse_prepare'') thd)
             | Some parser \<Rightarrow>
                 if \<not> ok parser \<or>
                    \<not> strncmp_eq ''VIEW'' (file_type parser) (length (file_type parser))
                 then Inl (- 1, my_error (ER_WRONG_OBJECT (db vw) (table_name vw) ''VIEW'') thd)
                 else
                   (case parse_revision parser of
                      Parse_error reported \<Rightarrow>
                        (let thd' = (if reported then my_error (ER_COLLABORATOR ''parse'') thd
                                     else thd)
                         in Inl (if report_error thd' then - 1 else 0, thd'))
                    | Parsed n \<Rightarrow> Inr (vw\<lparr>revision := n\<rparr>)))
      | None \<Rightarrow>
          if mode = VIEW_ALTER
          then Inl (- 1, my_error (ER_NO_SUCH_TABLE (db vw) (table_alias vw)) thd)
          else Inr vw)"

text \<open>
  The loop over the tables of the main select that clears \<^verbatim>\<open>updatable_view\<close>:
  \<^verbatim>\<open>True\<close> when it runs to its end without clearing the flag.
\<close>

fun tables_allow_update :: "table_ref list \<Rightarrow> bool" where
  "tables_allow_update [] = True"
| "tables_allow_update (tbl # tbls) =
     (if (view (node tbl) \<noteq> None \<and> \<not> updatable_view (node tbl)) \<or> schema_table (node tbl)
      then False
      else if outer_join_up tbl then False
      else tables_allow_update tbls)"

text \<open>
  The test that the table of the main select is not used in subqueries. The code
  dereferences the first table of the main select and \<^verbatim>\<open>lex->query_tables\<close>; it gets
  there only with \<^verbatim>\<open>updatable_view\<close> set, hence with \<^verbatim>\<open>can_be_merged()\<close> true,
  which needs a table in the main select. With no table the test is answered negatively
  here.
\<close>

definition main_table_used_in_subquery :: "collaborators \<Rightarrow> table_ref list LEX \<Rightarrow> bool" where
  "main_table_used_in_subquery env lx =
     (next_selects lx = [] \<and>
      (case table_list (select_lex lx) of [] \<Rightarrow> False | first # rest \<Rightarrow> rest = []) \<and>
      (case query_tables lx of
         [] \<Rightarrow> False
       | q # qs \<Rightarrow> find_table_in_global_list env qs (db (node q)) (table_name (node q))))"

text \<open>
  The algorithm stored for the view (downgraded from MERGE when the query cannot be
  merged) and the computation of \<^verbatim>\<open>view->updatable_view\<close>, lines 475 to 527.
\<close>

definition stored_algorithm :: "table_ref list LEX \<Rightarrow> view_algorithm" where
  "stored_algorithm lx =
     (if create_view_algorithm lx = VIEW_ALGORITHM_MERGE \<and> \<not> can_be_merged lx
      then VIEW_ALGORITHM_UNDEFINED
      else create_view_algorithm lx)"

definition compute_updatable :: "collaborators \<Rightarrow> table_ref list LEX \<Rightarrow> bool" where
  "compute_updatable env lx =
     (let can_merge = can_be_merged lx;
          u0 = (can_merge \<and> stored_algorithm lx \<noteq> VIEW_ALGORITHM_TMPTABLE);
          u1 = (if u0 then tables_allow_update (table_list (select_lex lx)) else False)
      in if u1 \<and> main_table_used_in_subquery env lx then False else u1)"

text \<open>
  Modelled from the spec: \<^verbatim>\<open>sql_create_definition_file\<close> (parse_file.cc, not among the
  sources) writes the record and, for the revision parameter, increments the counter:
  the revision becomes the previous revision plus one, or 1 for a new view.
  \<^verbatim>\<open>write_outcome\<close> is \<^verbatim>\<open>None\<close> when the write succeeds and otherwise says whether
  the failure was reported to the client.
\<close>

definition sql_create_definition_file ::
  "collaborators \<Rightarrow> 'a THD_scheme \<Rightarrow> TABLE_LIST \<Rightarrow> int \<times> 'a THD_scheme \<times> TABLE_LIST" where
  "sql_create_definition_file env thd vw =
     (let path = frm_path (mysql_data_home env) (db vw) (table_name vw)
      in case write_outcome env path of
           Some reported \<Rightarrow>
             (let thd' = (if reported then my_error (ER_COLLABORATOR ''sql_create_definition_file'') thd
                          else thd)
              in (if report_error thd' then - 1 else 1, thd', vw))
         | None \<Rightarrow>
             (let vw' = vw\<lparr>revision := revision vw + 1\<rparr>
              in (0, thd\<lparr>files := (files thd)(path \<mapsto> Contents (definition_file env vw'))\<rparr>, vw')))"

text \<open>
  Returns 0 (OK), -1 (error) or 1 (error and message given), with the state and the
  view description as the function leaves it.
\<close>

definition mysql_register_view ::
  "collaborators \<Rightarrow> 'a THD_scheme \<Rightarrow> table_ref list LEX \<Rightarrow> TABLE_LIST \<Rightarrow> enum_view_create_mode
   \<Rightarrow> int \<times> 'a THD_scheme \<times> TABLE_LIST" where
  "mysql_register_view env thd lx vw mode =
     (case check_old_frm env thd vw mode of
        Inl (r, thd') \<Rightarrow> (r, thd', vw)
      | Inr vw1 \<Rightarrow>
          (let vw2 = vw1\<lparr>query := printed lx, source := thd_query thd, file_version := 1,
                         md5 := calc_md5 env (printed lx)\<rparr>;
               thd1 = (if create_view_algorithm lx = VIEW_ALGORITHM_MERGE \<and> \<not> can_be_merged lx
                       then push_warning ER_WARN_VIEW_MERGE thd else thd);
               vw3 = vw2\<lparr>algorithm := stored_algorithm lx, with_check := create_view_check lx,
                         updatable_view := compute_updatable env lx\<rparr>
           in if with_check vw3 \<noteq> VIEW_CHECK_NONE \<and> \<not> updatable_view vw3
              then (- 1, my_error (ER_VIEW_NONUPD_CHECK (db vw3) (table_name vw3)) thd1, vw3)
              else sql_create_definition_file env thd1 vw3))"


subsection \<open>mysql_create_view\<close>

text \<open>
  The label \<^verbatim>\<open>err\<close>: the function returns \<^verbatim>\<open>res || thd->net.report_error\<close>.
\<close>

definition goto_err :: "bool \<Rightarrow> 'a THD_scheme \<Rightarrow> TABLE_LIST \<Rightarrow> bool \<times> 'a THD_scheme \<times> TABLE_LIST" where
  "goto_err res thd vw = (res \<or> report_error thd, thd, vw)"

text \<open>
  \<^verbatim>\<open>check_access(...) || grant_option && check_grant(...)\<close> for one privilege on a table.
\<close>

definition access_denied :: "collaborators \<Rightarrow> acl \<Rightarrow> TABLE_LIST \<Rightarrow> bool" where
  "access_denied env priv tbl =
     (check_access env priv (db tbl) \<or> (grant_option env \<and> check_grant env priv tbl))"

text \<open>The tables of the FROM clauses of all selects, in the order the two loops visit them.\<close>

definition from_clause_tables :: "table_ref list LEX \<Rightarrow> table_ref list" where
  "from_clause_tables lx = concat (map table_list (select_lex lx # next_selects lx))"

text \<open>
  The loop over the opened tables (lines 188 to 215): the first error it raises, if any.
\<close>

fun check_view_tables :: "TABLE_LIST \<Rightarrow> table_ref list \<Rightarrow> mysql_error option" where
  "check_view_tables vw [] = None"
| "check_view_tables vw (tbl # tbls) =
     (if tmp_table (node tbl) \<and> view (node tbl) = None \<and> \<not> schema_table (node tbl)
      then Some (ER_VIEW_SELECT_TMPTABLE (table_alias (node tbl)))
      else if view (node tbl) \<noteq> None \<and>
              view_db (node tbl) = db vw \<and>
              view_name (node tbl) = table_name vw
      then Some (ER_NO_SUCH_TABLE (view_db (node tbl)) (view_name (node tbl)))
      else check_view_tables vw tbls)"

text \<open>
  The test for duplicate names: \<^verbatim>\<open>seen\<close> holds the items before the current one,
  which the inner loop compares with it.
\<close>

fun duplicate_name :: "select_item list \<Rightarrow> select_item list \<Rightarrow> string option" where
  "duplicate_name seen [] = None"
| "duplicate_name seen (item # items) =
     (if \<exists>chk \<in> set seen. name item = name chk then Some (name item)
      else duplicate_name (seen @ [item]) items)"

definition first_duplicate_name :: "select_item list \<Rightarrow> string option" where
  "first_duplicate_name items =
     (case items of [] \<Rightarrow> None | item # rest \<Rightarrow> duplicate_name [item] rest)"

text \<open>
  The comparison of the grants on the view with those on the underlying columns: the
  first item whose view column would carry more privileges than its field.
\<close>

definition column_has_more_privileges ::
  "collaborators \<Rightarrow> TABLE_LIST \<Rightarrow> select_item \<Rightarrow> bool" where
  "column_has_more_privileges env vw item =
     (let priv = get_column_grant env (db vw) (table_name vw) (name item) AND VIEW_ANY_ACL env
      in filed_for_view_update (expr item) \<noteq> None \<and>
         \<not> in_tmp_table item \<and> (NOT (have_privileges item)) AND priv \<noteq> 0)"

definition all_items :: "table_ref list LEX \<Rightarrow> select_item list" where
  "all_items lx = concat (map item_list (select_lex lx # next_selects lx))"

text \<open>The view list renames the items of the main select, position by position.\<close>

definition set_names :: "string list \<Rightarrow> select_item list \<Rightarrow> select_item list" where
  "set_names names items = map (\<lambda>(n, item). item\<lparr>name := n\<rparr>) (zip names items)"

text \<open>
  The part of \<^verbatim>\<open>mysql_create_view\<close> after the tables are opened and checked, from
  the preparation of the select to the end.
\<close>

definition create_view_prepared ::
  "collaborators \<Rightarrow> 'a THD_scheme \<Rightarrow> table_ref list LEX \<Rightarrow> TABLE_LIST \<Rightarrow> enum_view_create_mode
   \<Rightarrow> bool \<times> 'a THD_scheme \<times> TABLE_LIST" where
  "create_view_prepared env thd lx0 vw mode =
     (let lx = lx0\<lparr>view_prepare_mode := True\<rparr>
      in if unit_prepare env lx
         then goto_err True (my_error (ER_COLLABORATOR ''prepare'') thd) vw
         else if view_list lx \<noteq> [] \<and> length (view_list lx) \<noteq> length (item_list (select_lex lx))
         then goto_err False (my_error ER_VIEW_WRONG_LIST thd) vw
         else
           (let lx1 = (if view_list lx \<noteq> []
                       then lx\<lparr>select_lex := (select_lex lx)
                              \<lparr>item_list := set_names (view_list lx) (item_list (select_lex lx))\<rparr>\<rparr>
                       else lx)
            in case first_duplicate_name (item_list (select_lex lx1)) of
                 Some n \<Rightarrow> (True, my_error (ER_DUP_FIELDNAME n) thd, vw)
               | None \<Rightarrow>
                   (case filter (column_has_more_privileges env vw) (all_items lx1) of
                      item # _ \<Rightarrow>
                        (True, my_error (ER_COLUMNACCESS_DENIED_ERROR (name item) (table_name vw)) thd, vw)
                    | [] \<Rightarrow>
                        if wait_if_global_read_lock env
                        then goto_err True (my_error (ER_COLLABORATOR ''wait_if_global_read_lock'') thd) vw
                        else
                          (case mysql_register_view env thd lx1 vw mode of
                             (res, thd1, vw1) \<Rightarrow>
                               (let thd2 = (if revision vw1 \<noteq> 1
                                            then thd1\<lparr>invalidated := invalidated thd1 @
                                                         [(db vw1, table_name vw1)]\<rparr>
                                            else thd1)
                                in if res \<noteq> 0 then goto_err True thd2 vw1
                                   else (False, thd2\<lparr>ok_sent := True\<rparr>, vw1))))))"

text \<open>
  Returns \<^verbatim>\<open>FALSE\<close> (OK) or \<^verbatim>\<open>TRUE\<close> (error), with the state and the description of
  the target view (the first table of the statement, which the function cuts off the
  list before it starts).
\<close>

definition mysql_create_view ::
  "collaborators \<Rightarrow> 'a THD_scheme \<Rightarrow> table_ref list LEX \<Rightarrow> TABLE_LIST \<Rightarrow> enum_view_create_mode
   \<Rightarrow> bool \<times> 'a THD_scheme \<times> TABLE_LIST" where
  "mysql_create_view env thd lx vw mode =
     (if proc_list_first lx \<or> result lx
      then goto_err True
             (my_error (ER_VIEW_SELECT_CLAUSE (if result lx then ''INTO'' else ''PROCEDURE'')) thd) vw
      else if derived_tables lx \<noteq> 0 \<or> variables_used lx \<or> param_list_elements lx \<noteq> 0
      then goto_err True
             (my_error (if derived_tables lx \<noteq> 0 then ER_VIEW_SELECT_DERIVED
                        else ER_VIEW_SELECT_VARIABLE) thd) vw
      else if access_denied env CREATE_VIEW_ACL vw \<or>
              (mode \<noteq> VIEW_CREATE_NEW \<and> access_denied env DROP_ACL vw)
      then (True, my_error (ER_COLLABORATOR ''check_access'') thd, vw)
      else
        (case filter (\<lambda>tbl. check_some_access env (node tbl)) (from_clause_tables lx) of
           tbl # _ \<Rightarrow> (True, my_error (ER_TABLEACCESS_DENIED_ERROR (table_name (node tbl))) thd, vw)
         | [] \<Rightarrow>
             if has_inner_selects lx \<and>
                (\<exists>tbl \<in> set (query_tables lx).
                    addr tbl \<notin> addr ` set (from_clause_tables lx) \<and>
                    access_denied env SELECT_ACL (node tbl))
             then goto_err True (my_error (ER_COLLABORATOR ''check_access'') thd) vw
             else
               (case open_and_lock_tables env lx of
                  None \<Rightarrow> (True, my_error (ER_COLLABORATOR ''open_and_lock_tables'') thd, vw)
                | Some lx1 \<Rightarrow>
                    (case check_view_tables vw (query_tables lx1) of
                       Some e \<Rightarrow> goto_err True (my_error e thd) vw
                     | None \<Rightarrow> create_view_prepared env thd lx1 vw mode))))"


subsection \<open>A small server for the examples\<close>

text \<open>
  Collaborators that grant every privilege, open every table as it is given, find a
  table in a list by its names, and keep a toy record format: the header followed by as
  many bytes as the revision counts.
\<close>

definition plain_env :: collaborators where
  "plain_env = \<lparr>mysql_data_home = ''/data'',
     check_access = (\<lambda>_ _. False), grant_option = False, check_grant = (\<lambda>_ _. False),
     check_some_access = (\<lambda>_. False), get_column_grant = (\<lambda>_ _ _. 0), VIEW_ANY_ACL = 0,
     open_and_lock_tables = Some, unit_prepare = (\<lambda>_. False), wait_if_global_read_lock = False,
     find_table_in_global_list =
       (\<lambda>tbls d n. \<exists>t \<in> set tbls. db (node t) = d \<and> table_name (node t) = n),
     sql_parse_prepare =
       (\<lambda>entry. case entry of
           Contents bytes \<Rightarrow>
             Some \<lparr>ok = True,
                   file_type = (if take 10 bytes = view_header then ''VIEW'' else ''TABLE''),
                   parse_revision = Parsed (length bytes - 10),
                   parse_parameters = None\<rparr>
         | _ \<Rightarrow> None),
     calc_md5 = (\<lambda>q. q),
     definition_file = (\<lambda>vw. view_header @ replicate (revision vw) (CHR ''r'')),
     write_outcome = (\<lambda>_. None)\<rparr>"

definition plain_thd :: THD where
  "plain_thd = \<lparr>warnings = [], errors = [], ok_sent = False, files = Map.empty,
     delete_fails = (\<lambda>_. False), invalidated = [], drop_if_exists = False,
     sql_command = SQLCOM_CREATE_VIEW, select_limit = 0, updatable_views_with_limit = False,
     thd_query = ''create view''\<rparr>"

definition plain_table :: "string \<Rightarrow> TABLE_LIST" where
  "plain_table n = \<lparr>db = ''db'', table_name = n, table_alias = n, query = [], md5 = [],
     updatable_view = False, algorithm = VIEW_ALGORITHM_UNDEFINED, with_check = VIEW_CHECK_NONE,
     revision = 0, timestamp = [], file_version = 0, source = [], view = None, view_db = [],
     view_name = [], schema_table = False, outer_join = False, tmp_table = False\<rparr>"

text \<open>The statement \<^verbatim>\<open>SELECT a FROM t\<close> over one base table, as a view definition.\<close>

definition select_a_from_t :: "table_ref list LEX" where
  "select_a_from_t = \<lparr>proc_list_first = False, result = False, derived_tables = 0,
     variables_used = False, param_list_elements = 0,
     select_lex = \<lparr>table_list = [Table_ref 1 (plain_table ''t'') None],
                    item_list = [\<lparr>name = ''a'', expr = Item_field 1, have_privileges = 0,
                                  in_tmp_table = False\<rparr>],
                    top_join_list = [1], where_cond = None, options = 0,
                    linkage = UNSPECIFIED_TYPE, select_number = 1\<rparr>,
     next_selects = [], has_inner_selects = False,
     query_tables = [Table_ref 1 (plain_table ''t'') None],
     query_tables_last = Next_global_of 1, view_list = [],
     create_view_algorithm = VIEW_ALGORITHM_UNDEFINED, create_view_check = VIEW_CHECK_NONE,
     view_prepare_mode = False, can_be_merged = True, can_use_merged = True,
     can_not_use_merged = False, safe_to_cache_query = True, subqueries = False,
     describe = False, printed = ''select a from t''\<rparr>"

text \<open>
  An opened reference to the existing view \<^verbatim>\<open>db.v\<close> and a temporary table, and the
  statement \<^verbatim>\<open>SELECT a FROM tmp, v\<close> over them.
\<close>

definition parsed_select_a_from_t :: "nat option LEX" where
  "parsed_select_a_from_t = \<lparr>proc_list_first = False, result = False, derived_tables = 0,
     variables_used = False, param_list_elements = 0,
     select_lex = \<lparr>table_list = Some 1,
                    item_list = [\<lparr>name = ''a'', expr = Item_field 1, have_privileges = 0,
                                  in_tmp_table = False\<rparr>],
                    top_join_list = [1], where_cond = None, options = 0,
                    linkage = UNSPECIFIED_TYPE, select_number = 1\<rparr>,
     next_selects = [], has_inner_selects = False,
     query_tables = Some 1,
     query_tables_last = Next_global_of 1, view_list = [],
     create_view_algorithm = VIEW_ALGORITHM_UNDEFINED, create_view_check = VIEW_CHECK_NONE,
     view_prepare_mode = False, can_be_merged = True, can_use_merged = True,
     can_not_use_merged = False, safe_to_cache_query = True, subqueries = False,
     describe = False, printed = ''select a from t''\<rparr>"

definition opened_view_v :: TABLE_LIST where
  "opened_view_v = (plain_table ''v'')\<lparr>view := Some parsed_select_a_from_t,
                     view_db := ''db'', view_name := ''v'', updatable_view := True\<rparr>"

definition select_from_tmp_and_v :: "table_ref list LEX" where
  "select_from_tmp_and_v = select_a_from_t\<lparr>
     select_lex := (select_lex select_a_from_t)
       \<lparr>table_list := [Table_ref 1 ((plain_table ''tmp'')\<lparr>tmp_table := True\<rparr>) None,
                       Table_ref 2 opened_view_v None]\<rparr>,
     query_tables := [Table_ref 1 ((plain_table ''tmp'')\<lparr>tmp_table := True\<rparr>) None,
                      Table_ref 2 opened_view_v None]\<rparr>"

text \<open>The data directory after \<^verbatim>\<open>db.v\<close> was created once (revision 1).\<close>

definition thd_with_v :: THD where
  "thd_with_v = plain_thd\<lparr>files := [''/data/db/v.frm'' \<mapsto> Contents (view_header @ ''r'')]\<rparr>"

text \<open>A view requested as a temporary table, with a check option.\<close>

definition temptable_with_check :: "table_ref list LEX" where
  "temptable_with_check = select_a_from_t\<lparr>create_view_algorithm := VIEW_ALGORITHM_TMPTABLE,
                                            create_view_check := VIEW_CHECK_CASCADED\<rparr>"

text \<open>A view requested with the MERGE algorithm whose query cannot be merged.\<close>

definition merge_not_mergeable :: "table_ref list LEX" where
  "merge_not_mergeable = select_a_from_t\<lparr>create_view_algorithm := VIEW_ALGORITHM_MERGE,
                                           can_be_merged := False\<rparr>"

section \<open>View resolution: mysql_make_view\<close>

text \<open>
  At resolution time the \<^verbatim>\<open>TABLE_LIST\<close> nodes live in a store and are relinked in
  place. A node has, besides the fields above, its links and the resolved state.
  \<^verbatim>\<open>prev_global\<close> points to the pointer that points to the node: the head
  \<^verbatim>\<open>query_tables\<close> of a \<^verbatim>\<open>LEX\<close> or the \<^verbatim>\<open>next_global\<close> field of a node.
  \<^verbatim>\<open>tl_select_lex\<close> is the field \<^verbatim>\<open>select_lex\<close> (the number of the select the
  reference belongs to), \<^verbatim>\<open>tl_where\<close> the field \<^verbatim>\<open>where\<close>, \<^verbatim>\<open>join_list\<close> the node
  whose nested join list the reference is in, \<^verbatim>\<open>derived\<close> the number of the first
  select of the unit.
\<close>

record TABLE_LIST_node = TABLE_LIST +
  next_global :: "nat option"
  prev_global :: "global_link option"
  next_local :: "nat option"
  belong_to_view :: "nat option"
  embedding :: "nat option"
  tl_select_lex :: nat
  prelocking_placeholder :: bool
  skip_temporary :: bool
  lock_type :: nat
  effective_algorithm :: view_algorithm
  updatable :: bool
  effective_with_check :: view_check
  ancestor :: "nat option"
  multitable_view :: bool
  nested_join :: "nat list option"
  join_list :: "nat option"
  tl_where :: "Item option"
  derived :: "nat option"

type_synonym store = "nat \<Rightarrow> TABLE_LIST_node"

text \<open>
  The thread state of the resolver: the store, the statement being resolved
  (\<^verbatim>\<open>thd->lex\<close>), \<^verbatim>\<open>thd->select_number\<close>, \<^verbatim>\<open>thd->is_fatal_error\<close>, and the texts
  handed to the parser so far.
\<close>

record resolver_state = THD +
  heap :: store
  thd_lex :: "nat option LEX"
  thd_select_number :: nat
  is_fatal_error :: bool
  parser_calls :: "string list"

text \<open>
  The collaborators of the resolver. \<^verbatim>\<open>yyparse\<close> parses a text into a fresh
  \<^verbatim>\<open>LEX\<close>, allocating its nodes in the store; it returns its result, whether it hit a
  fatal error, the \<^verbatim>\<open>LEX\<close> and the store. \<^verbatim>\<open>check_table_access\<close> answers
  \<^verbatim>\<open>TRUE\<close> when access is denied. \<^verbatim>\<open>master_unit\<close> gives the unit of a select;
  \<^verbatim>\<open>main_unit\<close> is \<^verbatim>\<open>&old_lex->unit\<close>. The two masks are constants of the server.
\<close>

record resolver_env =
  yyparse :: "string \<Rightarrow> store \<Rightarrow> int \<times> bool \<times> nat option LEX \<times> store"
  check_table_access :: "acl \<Rightarrow> nat option \<Rightarrow> bool"
  master_unit :: "nat \<Rightarrow> nat"
  main_unit :: nat
  DERIVED_VIEW :: "8 word"
  OPTION_TO_QUERY_CACHE :: "32 word"

text \<open>
  \<^verbatim>\<open>for (tbl= view_tables; tbl; tbl= (view_tables_tail= tbl)->next_global)\<close>: marks the
  tables of the view and finds the last of them.
\<close>

partial_function (option) mark_view_tables ::
  "nat \<Rightarrow> nat option \<Rightarrow> nat option \<Rightarrow> store \<Rightarrow> (nat option \<times> store) option" where
  "mark_view_tables top_view tbl view_tables_tail h =
     (case tbl of
        None \<Rightarrow> Some (view_tables_tail, h)
      | Some a \<Rightarrow>
          (let h' = h(a := (h a)\<lparr>skip_temporary := True, belong_to_view := Some top_view\<rparr>)
           in mark_view_tables top_view (next_global (h' a)) (Some a) h'))"

declare mark_view_tables.simps [code]

text \<open>
  \<^verbatim>\<open>for (tbl= ...get_table_list(); tbl; tbl= tbl->next_local) body\<close>, for a body that
  assigns fields of \<^verbatim>\<open>tbl\<close>.
\<close>

partial_function (option) for_next_local ::
  "(TABLE_LIST_node \<Rightarrow> TABLE_LIST_node) \<Rightarrow> nat option \<Rightarrow> store \<Rightarrow> store option" where
  "for_next_local body tbl h =
     (case tbl of
        None \<Rightarrow> Some h
      | Some a \<Rightarrow>
          (let h' = h(a := body (h a))
           in for_next_local body (next_local (h' a)) h'))"

declare for_next_local.simps [code]

text \<open>
  ``Put tables of VIEW after VIEW TABLE_LIST'': the splice of the chain of the view's
  tables into the global chain, given the last table of the view. It changes the store
  and \<^verbatim>\<open>old_lex->query_tables_last\<close>.
\<close>

definition put_tables_after_view ::
  "nat \<Rightarrow> nat option \<Rightarrow> nat option \<Rightarrow> store \<times> nat option LEX \<Rightarrow> store \<times> nat option LEX" where
  "put_tables_after_view table view_tables view_tables_tail hl =
     (case (view_tables, view_tables_tail) of
        (Some first_table, Some last_table) \<Rightarrow>
          (let h = fst hl; old_lex = snd hl;
               (h1, old_lex1) =
                 (case next_global (h table) of
                    Some nxt \<Rightarrow>
                      (let ha = h(last_table := (h last_table)\<lparr>next_global := next_global (h table)\<rparr>);
                           hb = ha(nxt := (ha nxt)\<lparr>prev_global := Some (Next_global_of last_table)\<rparr>)
                       in (hb, old_lex))
                  | None \<Rightarrow> (h, old_lex\<lparr>query_tables_last := Next_global_of last_table\<rparr>));
               h2 = h1(first_table := (h1 first_table)\<lparr>prev_global := Some (Next_global_of table)\<rparr>);
               h3 = h2(table := (h2 table)\<lparr>next_global := Some first_table\<rparr>)
           in (h3, old_lex1))
      | _ \<Rightarrow> hl)"


text \<open>
  \<^verbatim>\<open>parser->parse(table, ..., view_parameters, required_view_parameters)\<close> stores the
  parameters in the node; the code then saves the names of the view in
  \<^verbatim>\<open>view_db\<close> and \<^verbatim>\<open>view_name\<close>.
\<close>

definition read_view_parameters :: "view_parameter_values \<Rightarrow> TABLE_LIST_node \<Rightarrow> TABLE_LIST_node" where
  "read_view_parameters p tbl =
     tbl\<lparr>query := p_query p, md5 := p_md5 p, updatable_view := p_updatable p,
         algorithm := p_algorithm p, with_check := p_with_check p, revision := p_revision p,
         timestamp := p_timestamp p, view_db := db tbl, view_name := table_name tbl\<rparr>"

text \<open>The label \<^verbatim>\<open>err\<close>: the node is no view placeholder any more, the result is 1.\<close>

definition make_view_err :: "nat \<Rightarrow> 'a resolver_state_scheme \<Rightarrow> int \<times> 'a resolver_state_scheme" where
  "make_view_err table st = (1, st\<lparr>heap := (heap st)(table := (heap st table)\<lparr>view := None\<rparr>)\<rparr>)"

text \<open>
  The rights to run EXPLAIN SELECT and SHOW CREATE on the view: the error with which the
  code leaves, if it does.
\<close>

definition view_access_error ::
  "resolver_env \<Rightarrow> nat \<Rightarrow> nat option LEX \<Rightarrow> 'a resolver_state_scheme \<Rightarrow> mysql_error option" where
  "view_access_error env table lx st =
     (let old_lex = thd_lex st; placeholder = prelocking_placeholder (heap st table)
      in if \<not> placeholder \<and> sql_command st = SQLCOM_SELECT \<and> describe old_lex
         then (if check_table_access env SELECT_ACL (query_tables lx) \<and>
                  check_table_access env SHOW_VIEW_ACL (Some table)
               then Some ER_VIEW_NO_EXPLAIN else None)
         else if \<not> placeholder \<and> sql_command st = SQLCOM_SHOW_CREATE
         then (if check_table_access env SHOW_VIEW_ACL (Some table)
               then Some (ER_COLLABORATOR ''check_table_access'') else None)
         else None)"

text \<open>
  The MERGE branch, on the store: the resolved state of the node, the selects of the
  tables of the view, the nested join and the WHERE clause. (The relinking of the
  subquery units and of the list of all selects touches no \<^verbatim>\<open>TABLE_LIST\<close> and is
  left out.)
\<close>

definition merge_view :: "nat \<Rightarrow> nat option LEX \<Rightarrow> store \<Rightarrow> store option" where
  "merge_view table lx h =
     (let view_tables = query_tables lx;
          h1 = h(table := (h table)\<lparr>effective_algorithm := VIEW_ALGORITHM_MERGE,
                                   updatable := updatable_view (h table),
                                   effective_with_check := with_check (h table),
                                   ancestor := view_tables\<rparr>)
      in case for_next_local (\<lambda>tbl. tbl\<lparr>tl_select_lex := tl_select_lex (h1 table)\<rparr>)
                (table_list (select_lex lx)) h1 of
           None \<Rightarrow> None
         | Some h2 \<Rightarrow>
             (let h3 = (case view_tables of
                          None \<Rightarrow> h2
                        | Some first_table \<Rightarrow>
                            if next_local (h2 first_table) \<noteq> None
                            then h2(table := (h2 table)\<lparr>multitable_view := True\<rparr>)
                            else h2);
                  h4 = h3(table := (h3 table)\<lparr>nested_join := Some (top_join_list (select_lex lx))\<rparr>);
                  h5 = fold (\<lambda>a h. h(a := (h a)\<lparr>join_list := Some table, embedding := Some table\<rparr>))
                         (top_join_list (select_lex lx)) h4
              in Some (h5(table := (h5 table)\<lparr>tl_where := where_cond (select_lex lx)\<rparr>))))"

text \<open>The TEMPTABLE branch, on the node.\<close>

definition materialize_view :: "nat option LEX \<Rightarrow> TABLE_LIST_node \<Rightarrow> TABLE_LIST_node" where
  "materialize_view lx tbl =
     tbl\<lparr>effective_algorithm := VIEW_ALGORITHM_TMPTABLE, updatable := False,
         effective_with_check := VIEW_CHECK_NONE,
         derived := Some (select_number (select_lex lx))\<rparr>"

text \<open>``check MERGE algorithm ability''\<close>

definition merge_allowed ::
  "resolver_env \<Rightarrow> nat option LEX \<Rightarrow> nat option LEX \<Rightarrow> TABLE_LIST_node \<Rightarrow> bool" where
  "merge_allowed env old_lex lx tbl =
     (algorithm tbl \<noteq> VIEW_ALGORITHM_TMPTABLE \<and>
      can_be_merged lx \<and>
      (master_unit env (tl_select_lex tbl) \<noteq> main_unit env \<or> can_use_merged old_lex) \<and>
      \<not> can_not_use_merged old_lex)"

text \<open>What the code moves from the view to the whole query before it chooses the algorithm.\<close>

definition mark_outer_query :: "resolver_env \<Rightarrow> nat option LEX \<Rightarrow> nat option LEX \<Rightarrow> nat option LEX" where
  "mark_outer_query env lx old_lex =
     old_lex\<lparr>derived_tables := derived_tables old_lex OR DERIVED_VIEW env,
             safe_to_cache_query := (safe_to_cache_query old_lex \<and> safe_to_cache_query lx),
             select_lex :=
               (if options (select_lex lx) AND OPTION_TO_QUERY_CACHE env \<noteq> 0
                then (select_lex old_lex)\<lparr>options := options (select_lex old_lex) OR
                                                        OPTION_TO_QUERY_CACHE env\<rparr>
                else select_lex old_lex)\<rparr>"

text \<open>
  The body of \<^verbatim>\<open>if (!res && !thd->is_fatal_error)\<close> after the access checks:
  the tables of the view are marked and spliced into the global list, then the view is
  merged or materialized.
\<close>

definition link_view_tables ::
  "resolver_env \<Rightarrow> nat \<Rightarrow> nat option LEX \<Rightarrow> 'a resolver_state_scheme
   \<Rightarrow> (int \<times> 'a resolver_state_scheme) option" where
  "link_view_tables env table lx st =
     (let top_view = (case belong_to_view (heap st table) of Some b \<Rightarrow> b | None \<Rightarrow> table);
          view_tables = query_tables lx
      in case mark_view_tables top_view view_tables None (heap st) of
           None \<Rightarrow> None
         | Some (view_tables_tail, h1) \<Rightarrow>
             (let (h2, old_lex1) = put_tables_after_view table view_tables view_tables_tail
                                     (h1, thd_lex st)
              in case (if next_selects lx = []
                       then for_next_local (\<lambda>tbl. tbl\<lparr>lock_type := lock_type (h2 table)\<rparr>)
                              (table_list (select_lex lx)) h2
                       else Some h2) of
                   None \<Rightarrow> None
                 | Some h3 \<Rightarrow>
                     if prelocking_placeholder (h3 table)
                     then Some (0, st\<lparr>heap := h3(table := (h3 table)\<lparr>view := Some lx\<rparr>),
                                     thd_lex := old_lex1\<rparr>)
                     else
                       (let old_lex2 = mark_outer_query env lx old_lex1
                        in if merge_allowed env old_lex2 lx (h3 table)
                           then (case merge_view table lx h3 of
                                   None \<Rightarrow> None
                                 | Some h4 \<Rightarrow>
                                     Some (0, st\<lparr>heap := h4(table := (h4 table)\<lparr>view := Some lx\<rparr>),
                                                thd_lex := old_lex2\<rparr>))
                           else
                             (let h4 = h3(table := materialize_view lx (h3 table));
                                  lx' = lx\<lparr>select_lex := (select_lex lx)\<lparr>linkage := DERIVED_TABLE_TYPE\<rparr>\<rparr>
                              in Some (0, st\<lparr>heap := h4(table := (h4 table)\<lparr>view := Some lx'\<rparr>),
                                            thd_lex := old_lex2\<lparr>subqueries := True\<rparr>\<rparr>)))))"

text \<open>
  Returns 0 (ok) or 1 (error) with the state, or nothing when a loop over a chain of the
  store does not end. \<^verbatim>\<open>table->view\<close> is set to the new \<^verbatim>\<open>LEX\<close> before the
  parser runs and is read by nothing until the function returns, so the node receives
  the \<^verbatim>\<open>LEX\<close> as it is at the return. The parser is called with the modes switched
  off and restored around the call, which leaves the state as it was.
\<close>

definition mysql_make_view ::
  "resolver_env \<Rightarrow> File_parser \<Rightarrow> nat \<Rightarrow> 'a resolver_state_scheme
   \<Rightarrow> (int \<times> 'a resolver_state_scheme) option" where
  "mysql_make_view env parser table st =
     (if view (heap st table) \<noteq> None then Some (0, st)
      else
        (case parse_parameters parser of
           None \<Rightarrow> Some (make_view_err table st)
         | Some p \<Rightarrow>
             (let h1 = (heap st)(table := read_view_parameters p (heap st table));
                  n = thd_select_number st + 1;
                  (res, fatal, lex0, h2) = yyparse env (query (h1 table)) h1;
                  lx = lex0\<lparr>select_lex := (select_lex lex0)\<lparr>select_number := n\<rparr>\<rparr>;
                  st1 = st\<lparr>heap := h2, thd_select_number := n,
                           is_fatal_error := (is_fatal_error st \<or> fatal),
                           parser_calls := parser_calls st @ [query (h1 table)]\<rparr>
              in if res = 0 \<and> \<not> is_fatal_error st1
                 then (case view_access_error env table lx st1 of
                         Some e \<Rightarrow> Some (make_view_err table (my_error e st1))
                       | None \<Rightarrow> link_view_tables env table lx st1)
                 else Some (make_view_err table st1))))"

subsection \<open>Chains of the store\<close>

text \<open>
  \<^verbatim>\<open>node_path nxt p xs q\<close>: following the link \<^verbatim>\<open>nxt\<close> from \<^verbatim>\<open>p\<close> visits exactly the nodes
  \<^verbatim>\<open>xs\<close>, in this order, and arrives at \<^verbatim>\<open>q\<close>. The global table list of a statement
  is the path from \<^verbatim>\<open>query_tables\<close> to the null pointer along \<^verbatim>\<open>next_global\<close>.
\<close>

fun node_path :: "(nat \<Rightarrow> nat option) \<Rightarrow> nat option \<Rightarrow> nat list \<Rightarrow> nat option \<Rightarrow> bool" where
  "node_path nxt p [] q = (p = q)"
| "node_path nxt p (x # xs) q = (p = Some x \<and> node_path nxt (nxt x) xs q)"

definition global_list :: "store \<Rightarrow> nat option \<Rightarrow> nat list \<Rightarrow> bool" where
  "global_list h p xs = node_path (\<lambda>a. next_global (h a)) p xs None"

definition local_list :: "store \<Rightarrow> nat option \<Rightarrow> nat list \<Rightarrow> bool" where
  "local_list h p xs = node_path (\<lambda>a. next_local (h a)) p xs None"


subsection \<open>A small statement for the examples\<close>

text \<open>
  The statement \<^verbatim>\<open>SELECT a FROM v, w\<close>: node 10 refers to the view \<^verbatim>\<open>v\<close>, node 11 to
  the table \<^verbatim>\<open>w\<close>. The record of \<^verbatim>\<open>v\<close> holds \<^verbatim>\<open>select a from t, u\<close> and says
  that the view is not updatable. The parser puts the tables \<^verbatim>\<open>t\<close> and \<^verbatim>\<open>u\<close> of
  that query at the nodes 20 and 21.
\<close>

definition plain_node :: "string \<Rightarrow> nat option \<Rightarrow> nat option \<Rightarrow> TABLE_LIST_node" where
  "plain_node n nxt_global nxt_local =
     \<lparr>db = ''db'', table_name = n, table_alias = n, query = [], md5 = [],
      updatable_view = False, algorithm = VIEW_ALGORITHM_UNDEFINED, with_check = VIEW_CHECK_NONE,
      revision = 0, timestamp = [], file_version = 0, source = [], view = None, view_db = [],
      view_name = [], schema_table = False, outer_join = False, tmp_table = False,
      next_global = nxt_global, prev_global = None, next_local = nxt_local,
      belong_to_view = None, embedding = None, tl_select_lex = 1,
      prelocking_placeholder = False, skip_temporary = False, lock_type = 0,
      effective_algorithm = VIEW_ALGORITHM_UNDEFINED, updatable = False,
      effective_with_check = VIEW_CHECK_NONE, ancestor = None, multitable_view = False,
      nested_join = None, join_list = None, tl_where = None, derived = None\<rparr>"

definition record_of_v :: File_parser where
  "record_of_v = \<lparr>ok = True, file_type = ''VIEW'', parse_revision = Parsed 1,
     parse_parameters = Some \<lparr>p_query = ''select a from t, u'', p_md5 = [], p_updatable = False,
                               p_algorithm = VIEW_ALGORITHM_UNDEFINED,
                               p_with_check = VIEW_CHECK_NONE, p_revision = 1, p_timestamp = []\<rparr>\<rparr>"

definition parsed_query_of_v :: "nat option LEX" where
  "parsed_query_of_v = parsed_select_a_from_t\<lparr>
     select_lex := (select_lex parsed_select_a_from_t)\<lparr>table_list := Some 20, top_join_list := [20, 21]\<rparr>,
     query_tables := Some 20, query_tables_last := Next_global_of 21,
     printed := ''select a from t, u''\<rparr>"

definition small_parser :: resolver_env where
  "small_parser = \<lparr>
     yyparse = (\<lambda>text h. (0, False, parsed_query_of_v,
                 h(20 := plain_node ''t'' (Some 21) (Some 21), 21 := plain_node ''u'' None None))),
     check_table_access = (\<lambda>_ _. False), master_unit = (\<lambda>_. 0), main_unit = 0,
     DERIVED_VIEW = 16, OPTION_TO_QUERY_CACHE = 65536\<rparr>"

definition select_from_v_w :: resolver_state where
  "select_from_v_w = \<lparr>warnings = [], errors = [], ok_sent = False, files = Map.empty,
     delete_fails = (\<lambda>_. False), invalidated = [], drop_if_exists = False,
     sql_command = SQLCOM_SELECT, select_limit = 0, updatable_views_with_limit = False,
     thd_query = ''select a from v, w'',
     heap = (\<lambda>_. plain_node [] None None)
              (10 := plain_node ''v'' (Some 11) (Some 11), 11 := plain_node ''w'' None None),
     thd_lex = parsed_select_a_from_t\<lparr>
       select_lex := (select_lex parsed_select_a_from_t)\<lparr>table_list := Some 10, top_join_list := [10, 11]\<rparr>,
       query_tables := Some 10, query_tables_last := Next_global_of 11,
       printed := ''select a from v, w''\<rparr>,
     thd_select_number = 1, is_fatal_error = False, parser_calls = []\<rparr>"

section \<open>Properties of the type probe\<close>

text \<open>
  C10: a record file that opens and reads successfully but holds fewer than the 10 bytes
  of the header is classified as a view by the cheap type probe, never as a table or an
  error.
\<close>

theorem frm_type_short_file_is_view:
  "fs path = Some (Contents bytes) \<Longrightarrow> length bytes < 10 \<Longrightarrow>
   mysql_frm_type fs path = FRMTYPE_VIEW"
  by (simp add: mysql_frm_type_def my_read_def sizeof_header_def Let_def)

theorem frm_type_short_file_is_view_witness:
  "[''p'' \<mapsto> Contents ''TYPE=TAB''] ''p'' = Some (Contents ''TYPE=TAB'')
   \<and> length ''TYPE=TAB'' < 10
   \<and> mysql_frm_type [''p'' \<mapsto> Contents ''TYPE=TAB''] ''p'' = FRMTYPE_VIEW"
  using frm_type_short_file_is_view [of "[''p'' \<mapsto> Contents ''TYPE=TAB'']" "''p''" "''TYPE=TAB''"]
  by simp

section \<open>Properties of DROP VIEW\<close>

lemma drop_view_round_keeps_flag:
  "drop_view_round home v (t, thd) = Continue (t', thd') \<Longrightarrow>
   drop_if_exists thd' = drop_if_exists thd \<and> ((t \<longrightarrow> drop_if_exists thd) \<longrightarrow> (t' \<longrightarrow> drop_if_exists thd'))"
  by (auto simp: drop_view_round_def Let_def split: if_splits)

lemma drop_view_loop_stale_type:
  "drop_view_loop home pre (t0, thd0) = Continue (t, thd) \<Longrightarrow> (t0 \<longrightarrow> drop_if_exists thd0) \<Longrightarrow>
   (t \<longrightarrow> drop_if_exists thd)"
proof (induction pre arbitrary: t0 thd0)
  case Nil
  then show ?case by simp
next
  case (Cons v pre)
  obtain t1 thd1 where r: "drop_view_round home v (t0, thd0) = Continue (t1, thd1)"
    and l: "drop_view_loop home pre (t1, thd1) = Continue (t, thd)"
    using Cons.prems(1) by (auto split: round.splits)
  from drop_view_round_keeps_flag [OF r] Cons.prems(2) have "t1 \<longrightarrow> drop_if_exists thd1" by blast
  from Cons.IH [OF l this] show ?case .
qed

lemma drop_view_loop_append:
  "drop_view_loop home (pre @ post) ts =
     (case drop_view_loop home pre ts of Abort ts' \<Rightarrow> Abort ts' | Continue ts' \<Rightarrow> drop_view_loop home post ts')"
  by (induction pre arbitrary: ts) (auto split: round.splits)

lemma drop_round_absent_if_exists:
  "files thd (frm_path home (fst v) (snd v)) = None \<Longrightarrow> drop_if_exists thd \<Longrightarrow>
   drop_view_round home v (t, thd) =
     Continue (t, thd\<lparr>warnings := warnings thd @ [NOTE_BAD_TABLE_ERROR (dotted_name (fst v) (snd v))]\<rparr>)"
  by (simp add: drop_view_round_def Let_def)

lemma drop_round_absent_strict:
  "files thd (frm_path home (fst v) (snd v)) = None \<Longrightarrow> \<not> drop_if_exists thd \<Longrightarrow>
   t \<longrightarrow> drop_if_exists thd \<Longrightarrow>
   drop_view_round home v (t, thd) =
     Abort (False, thd\<lparr>errors := errors thd @ [ER_BAD_TABLE_ERROR (dotted_name (fst v) (snd v))]\<rparr>)"
  by (simp add: drop_view_round_def Let_def)

lemma drop_round_wrong_type_if_exists:
  "files thd (frm_path home (fst v) (snd v)) \<noteq> None \<Longrightarrow>
   mysql_frm_type (files thd) (frm_path home (fst v) (snd v)) \<noteq> FRMTYPE_VIEW \<Longrightarrow>
   drop_if_exists thd \<Longrightarrow>
   drop_view_round home v (t, thd) =
     Continue (True, thd\<lparr>warnings := warnings thd @ [NOTE_BAD_TABLE_ERROR (dotted_name (fst v) (snd v))]\<rparr>)"
  by (auto simp: drop_view_round_def Let_def)

lemma drop_round_wrong_type_strict:
  "files thd (frm_path home (fst v) (snd v)) \<noteq> None \<Longrightarrow>
   mysql_frm_type (files thd) (frm_path home (fst v) (snd v)) \<noteq> FRMTYPE_VIEW \<Longrightarrow>
   \<not> drop_if_exists thd \<Longrightarrow>
   drop_view_round home v (t, thd) =
     Abort (True, thd\<lparr>errors := errors thd @ [ER_WRONG_OBJECT (fst v) (snd v) ''VIEW'']\<rparr>)"
  by (auto simp: drop_view_round_def Let_def)

lemma drop_round_view:
  "files thd (frm_path home (fst v) (snd v)) \<noteq> None \<Longrightarrow>
   mysql_frm_type (files thd) (frm_path home (fst v) (snd v)) = FRMTYPE_VIEW \<Longrightarrow>
   \<not> delete_fails thd (frm_path home (fst v) (snd v)) \<Longrightarrow>
   drop_view_round home v (t, thd) =
     Continue (False, thd\<lparr>files := (files thd)(frm_path home (fst v) (snd v) := None),
                           invalidated := invalidated thd @ [v]\<rparr>)"
  by (auto simp: drop_view_round_def Let_def)

text \<open>
  C7 (as amended): for every name of a DROP VIEW batch that the loop reaches, a record
  that is absent, or present with a type other than VIEW, is skipped with a warning when
  \<^verbatim>\<open>IF EXISTS\<close> is set; without it the batch fails, with the bad-table error for an
  absent record and with the wrong-object error for a record that is not a view.
  Otherwise the record is deleted and the cached results of the name are invalidated
  (when the deletion itself succeeds).
\<close>

theorem drop_view_each_name:
  "drop_view_loop home pre (False, thd0) = Continue (t, thd) \<Longrightarrow>
   drop_view_loop home (pre @ v # post) (False, thd0) =
     (case drop_view_round home v (t, thd) of
        Abort ts \<Rightarrow> Abort ts | Continue ts \<Rightarrow> drop_view_loop home post ts)
   \<and> (files thd (frm_path home (fst v) (snd v)) = None \<and> drop_if_exists thd \<longrightarrow>
        drop_view_round home v (t, thd) =
          Continue (t, thd\<lparr>warnings := warnings thd @
                                [NOTE_BAD_TABLE_ERROR (dotted_name (fst v) (snd v))]\<rparr>))
   \<and> (files thd (frm_path home (fst v) (snd v)) = None \<and> \<not> drop_if_exists thd \<longrightarrow>
        drop_view_round home v (t, thd) =
          Abort (False, thd\<lparr>errors := errors thd @
                                [ER_BAD_TABLE_ERROR (dotted_name (fst v) (snd v))]\<rparr>))
   \<and> (files thd (frm_path home (fst v) (snd v)) \<noteq> None
        \<and> mysql_frm_type (files thd) (frm_path home (fst v) (snd v)) \<noteq> FRMTYPE_VIEW
        \<and> drop_if_exists thd \<longrightarrow>
        drop_view_round home v (t, thd) =
          Continue (True, thd\<lparr>warnings := warnings thd @
                                [NOTE_BAD_TABLE_ERROR (dotted_name (fst v) (snd v))]\<rparr>))
   \<and> (files thd (frm_path home (fst v) (snd v)) \<noteq> None
        \<and> mysql_frm_type (files thd) (frm_path home (fst v) (snd v)) \<noteq> FRMTYPE_VIEW
        \<and> \<not> drop_if_exists thd \<longrightarrow>
        drop_view_round home v (t, thd) =
          Abort (True, thd\<lparr>errors := errors thd @ [ER_WRONG_OBJECT (fst v) (snd v) ''VIEW'']\<rparr>))
   \<and> (files thd (frm_path home (fst v) (snd v)) \<noteq> None
        \<and> mysql_frm_type (files thd) (frm_path home (fst v) (snd v)) = FRMTYPE_VIEW
        \<and> \<not> delete_fails thd (frm_path home (fst v) (snd v)) \<longrightarrow>
        drop_view_round home v (t, thd) =
          Continue (False, thd\<lparr>files := (files thd)(frm_path home (fst v) (snd v) := None),
                                invalidated := invalidated thd @ [v]\<rparr>))"
proof -
  assume reach: "drop_view_loop home pre (False, thd0) = Continue (t, thd)"
  have stale: "t \<longrightarrow> drop_if_exists thd"
    using drop_view_loop_stale_type [OF reach] by simp
  have link: "drop_view_loop home (pre @ v # post) (False, thd0) =
     (case drop_view_round home v (t, thd) of
        Abort ts \<Rightarrow> Abort ts | Continue ts \<Rightarrow> drop_view_loop home post ts)"
    by (simp add: drop_view_loop_append reach)
  show ?thesis
    using link stale drop_round_absent_if_exists [of thd home v t]
      drop_round_absent_strict [of thd home v t]
      drop_round_wrong_type_if_exists [of thd home v t]
      drop_round_wrong_type_strict [of thd home v t]
      drop_round_view [of thd home v t]
    by blast
qed

text \<open>
  C7 as stated fails: with \<^verbatim>\<open>IF EXISTS\<close>, a record that is present and is not a view
  is skipped with a warning, and the statement succeeds without the wrong-object error.
\<close>

theorem drop_view_if_exists_wrong_type_counterexample:
  "files drop_example (frm_path ''/data'' ''db'' ''t'') \<noteq> None
   \<and> mysql_frm_type (files drop_example) (frm_path ''/data'' ''db'' ''t'') = FRMTYPE_TABLE
   \<and> mysql_drop_view ''/data'' [(''db'', ''t'')] drop_example =
       (False, drop_example\<lparr>warnings := [NOTE_BAD_TABLE_ERROR ''db.t''], ok_sent := True\<rparr>)"
  by (simp add: drop_example_def frm_path_def reg_ext_def mysql_frm_type_def my_read_def
      sizeof_header_def view_header_def mysql_drop_view_def drop_view_round_def dotted_name_def Let_def)

text \<open>The C7 theorem at a concrete batch, with and without \<^verbatim>\<open>IF EXISTS\<close>.\<close>

theorem drop_view_each_name_witness:
  "drop_view_loop ''/data'' [] (False, drop_example) = Continue (False, drop_example)
   \<and> drop_view_round ''/data'' (''db'', ''t'') (False, drop_example) =
       Continue (True, drop_example\<lparr>warnings := [NOTE_BAD_TABLE_ERROR ''db.t'']\<rparr>)
   \<and> drop_view_round ''/data'' (''db'', ''nosuch'') (False, drop_example\<lparr>drop_if_exists := False\<rparr>) =
       Abort (False, drop_example\<lparr>drop_if_exists := False, errors := [ER_BAD_TABLE_ERROR ''db.nosuch'']\<rparr>)"
proof -
  have r: "drop_view_loop ''/data'' [] (False, drop_example) = Continue (False, drop_example)"
    by simp
  have r2: "drop_view_loop ''/data'' [] (False, drop_example\<lparr>drop_if_exists := False\<rparr>) =
     Continue (False, drop_example\<lparr>drop_if_exists := False\<rparr>)"
    by simp
  have a: "files drop_example (frm_path ''/data'' ''db'' ''t'') \<noteq> None"
    by (simp add: drop_example_def frm_path_def reg_ext_def)
  have b: "mysql_frm_type (files drop_example) (frm_path ''/data'' ''db'' ''t'') \<noteq> FRMTYPE_VIEW"
    by (simp add: drop_example_def frm_path_def reg_ext_def mysql_frm_type_def my_read_def
      sizeof_header_def view_header_def Let_def)
  have c: "drop_if_exists drop_example" by (simp add: drop_example_def)
  have d: "files (drop_example\<lparr>drop_if_exists := False\<rparr>) (frm_path ''/data'' ''db'' ''nosuch'') = None"
    by (simp add: drop_example_def frm_path_def reg_ext_def)
  have e: "\<not> drop_if_exists (drop_example\<lparr>drop_if_exists := False\<rparr>)" by simp
  have w: "warnings drop_example = []" "errors drop_example = []"
    by (simp_all add: drop_example_def)
  show ?thesis
    using drop_view_each_name [OF r, of "(''db'', ''t'')" "[]"]
      drop_view_each_name [OF r2, of "(''db'', ''nosuch'')" "[]"] a b c d e
    by (simp add: dotted_name_def w)
qed

section \<open>Properties of the bounded-mutation key check\<close>

lemma find_field_exposed:
  "find_field tr f = length tr \<longleftrightarrow> f \<notin> set (exposed_columns tr)"
  by (induction tr) (auto simp: exposed_columns_def split: option.splits)

lemma key_parts_loop_all:
  "parts \<noteq> [] \<Longrightarrow> key_parts_loop tr parts \<longleftrightarrow> (\<forall>part \<in> set parts. part \<in> set (exposed_columns tr))"
  by (induction tr parts rule: key_parts_loop.induct) (auto simp: find_field_exposed)

lemma bit_HA_NOSAME: "bit HA_NOSAME n \<longleftrightarrow> n = 0"
  by (simp add: HA_NOSAME_def bit_1_iff)

lemma bit_HA_NULL_PART_KEY: "bit HA_NULL_PART_KEY n \<longleftrightarrow> n = 6"
proof -
  have e: "HA_NULL_PART_KEY = push_bit 6 1" by (simp add: HA_NULL_PART_KEY_def)
  have "bit (push_bit 6 (1::32 word)) n \<longleftrightarrow> n = 6"
    unfolding bit_push_bit_iff bit_1_iff by auto
  then show ?thesis unfolding e .
qed

lemma word_eq_bits: "(a :: 32 word) = b \<longleftrightarrow> (\<forall>n. bit a n = bit b n)"
proof
  assume "a = b"
  then show "\<forall>n. bit a n = bit b n" by blast
next
  assume h: "\<forall>n. bit a n = bit b n"
  show "a = b"
  proof (rule bit_eqI)
    fix n
    show "bit a n = bit b n" using h by blast
  qed
qed

lemma flags_unique_not_null:
  "flags key AND (HA_NOSAME OR HA_NULL_PART_KEY) = HA_NOSAME \<longleftrightarrow> unique_not_null_key key"
proof -
  have "flags key AND (HA_NOSAME OR HA_NULL_PART_KEY) = HA_NOSAME \<longleftrightarrow>
        (\<forall>n. bit (flags key AND (HA_NOSAME OR HA_NULL_PART_KEY)) n = bit HA_NOSAME n)"
    by (rule word_eq_bits)
  also have "\<dots> \<longleftrightarrow> (\<forall>n. (bit (flags key) n \<and> (n = 0 \<or> n = 6)) = (n = 0))"
    by (simp only: bit_and_iff bit_or_iff bit_HA_NOSAME bit_HA_NULL_PART_KEY)
  also have "\<dots> \<longleftrightarrow> bit (flags key) 0 \<and> \<not> bit (flags key) 6"
    by (metis zero_neq_numeral)
  finally show ?thesis by (simp add: unique_not_null_key_def)
qed

lemma keys_loop_covers:
  "\<forall>key \<in> set keys. key_part key \<noteq> [] \<Longrightarrow>
   keys_loop tr keys \<longleftrightarrow>
     (\<exists>key \<in> set keys. unique_not_null_key key \<and>
        (\<forall>part \<in> set (key_part key). part \<in> set (exposed_columns tr)))"
  by (induction keys) (auto simp: flags_unique_not_null key_parts_loop_all)

lemma fields_loop_covers:
  "\<forall>f \<in> set fs. f \<in> set (exposed_columns tr) \<Longrightarrow> fields_loop thd tr fs = (False, thd)"
  by (induction fs) (auto simp: find_field_exposed)

lemma fields_loop_missing:
  "\<not> (\<forall>f \<in> set fs. f \<in> set (exposed_columns tr)) \<Longrightarrow>
   fields_loop thd tr fs =
     (if updatable_views_with_limit thd
      then (False, thd\<lparr>warnings := warnings thd @ [ER_WARN_VIEW_WITHOUT_KEY]\<rparr>)
      else (True, thd))"
  by (induction fs) (auto simp: find_field_exposed)

text \<open>
  C2: for a view node under a statement with a row limit (and not an INSERT), the
  bounded-mutation key check answers safe, silently, exactly when the exposed columns
  cover a unique all-not-null key of the underlying table or every column of the table.
  When neither holds the configuration flag \<^verbatim>\<open>updatable_views_with_limit\<close> selects the
  outcome: a warning and safe when it is set, a rejection when it is not.
\<close>

theorem check_key_in_view_coverage:
  "k_view vw \<noteq> None \<or> k_belong_to_view vw \<noteq> None \<Longrightarrow>
   sql_command thd \<noteq> SQLCOM_INSERT \<Longrightarrow>
   select_limit thd \<noteq> 0 \<Longrightarrow>
   \<forall>key \<in> set (key_info (k_table vw)). key_part key \<noteq> [] \<Longrightarrow>
   check_key_in_view thd vw =
     (if covers_key (translation_of vw) (k_table vw) \<or>
         covers_all_columns (translation_of vw) (k_table vw)
      then (False, thd)
      else if updatable_views_with_limit thd
      then (False, thd\<lparr>warnings := warnings thd @ [ER_WARN_VIEW_WITHOUT_KEY]\<rparr>)
      else (True, thd))"
proof -
  assume g: "k_view vw \<noteq> None \<or> k_belong_to_view vw \<noteq> None"
    "sql_command thd \<noteq> SQLCOM_INSERT" "select_limit thd \<noteq> 0"
    and parts: "\<forall>key \<in> set (key_info (k_table vw)). key_part key \<noteq> []"
  have guard: "\<not> ((k_view vw = None \<and> k_belong_to_view vw = None) \<or>
         sql_command thd = SQLCOM_INSERT \<or> select_limit thd = 0)"
    using g by blast
  have body: "check_key_in_view thd vw =
      (if keys_loop (translation_of vw) (key_info (k_table vw)) then (False, thd)
       else fields_loop thd (translation_of vw) (field (k_table vw)))"
    unfolding check_key_in_view_def translation_of_def Let_def using guard by (simp only: if_False)
  show ?thesis
  proof (cases "covers_key (translation_of vw) (k_table vw)")
    case True
    then have "keys_loop (translation_of vw) (key_info (k_table vw))"
      using keys_loop_covers [OF parts] by (simp add: covers_key_def)
    with True body show ?thesis by simp
  next
    case False
    then have nk: "\<not> keys_loop (translation_of vw) (key_info (k_table vw))"
      using keys_loop_covers [OF parts] by (simp add: covers_key_def)
    show ?thesis
    proof (cases "covers_all_columns (translation_of vw) (k_table vw)")
      case True
      then have "fields_loop thd (translation_of vw) (field (k_table vw)) = (False, thd)"
        by (simp add: covers_all_columns_def fields_loop_covers)
      with True nk body show ?thesis by simp
    next
      case nc: False
      then have "fields_loop thd (translation_of vw) (field (k_table vw)) =
        (if updatable_views_with_limit thd
         then (False, thd\<lparr>warnings := warnings thd @ [ER_WARN_VIEW_WITHOUT_KEY]\<rparr>)
         else (True, thd))"
        using fields_loop_missing [of "field (k_table vw)" "translation_of vw" thd]
        by (simp add: covers_all_columns_def)
      with nc False nk body show ?thesis by simp
    qed
  qed
qed


lemma example_facts:
  "covers_key (translation_of view_ab) (k_table view_ab)"
  "\<not> covers_key (translation_of view_b) (k_table view_b)"
  "\<not> covers_all_columns (translation_of view_b) (k_table view_b)"
  by (simp_all add: covers_key_def covers_all_columns_def translation_of_def view_ab_def view_b_def
      table_abc_def unique_not_null_key_def exposed_columns_def)

text \<open>The C2 theorem on a covered view and on an uncovered one, under both flag values.\<close>

theorem check_key_in_view_coverage_witness:
  "check_key_in_view limit_thd view_ab = (False, limit_thd)
   \<and> check_key_in_view limit_thd view_b = (True, limit_thd)
   \<and> check_key_in_view (limit_thd\<lparr>updatable_views_with_limit := True\<rparr>) view_b =
       (False, limit_thd\<lparr>updatable_views_with_limit := True, warnings := [ER_WARN_VIEW_WITHOUT_KEY]\<rparr>)"
proof -
  have v: "k_view view_ab \<noteq> None \<or> k_belong_to_view view_ab \<noteq> None"
    "k_view view_b \<noteq> None \<or> k_belong_to_view view_b \<noteq> None"
    by (simp_all add: view_ab_def view_b_def)
  have c: "sql_command limit_thd \<noteq> SQLCOM_INSERT" "select_limit limit_thd \<noteq> 0"
    "sql_command (limit_thd\<lparr>updatable_views_with_limit := True\<rparr>) \<noteq> SQLCOM_INSERT"
    "select_limit (limit_thd\<lparr>updatable_views_with_limit := True\<rparr>) \<noteq> 0"
    "\<not> updatable_views_with_limit limit_thd" "warnings limit_thd = []"
    by (simp_all add: limit_thd_def)
  have p: "\<forall>key \<in> set (key_info (k_table view_ab)). key_part key \<noteq> []"
    "\<forall>key \<in> set (key_info (k_table view_b)). key_part key \<noteq> []"
    by (simp_all add: view_ab_def view_b_def table_abc_def)
  show ?thesis
    using check_key_in_view_coverage [OF v(1) c(1) c(2) p(1)]
      check_key_in_view_coverage [OF v(2) c(1) c(2) p(2)]
      check_key_in_view_coverage [OF v(2) c(3) c(4) p(2)]
      example_facts c(5) c(6)
    by simp
qed

section \<open>Properties of CREATE VIEW and ALTER VIEW\<close>

lemma check_old_frm_names:
  "check_old_frm env thd vw mode = Inr vw1 \<Longrightarrow>
   db vw1 = db vw \<and> table_name vw1 = table_name vw"
  by (auto simp: check_old_frm_def Let_def split: option.splits if_splits parse_outcome.splits)

lemma register_after_frm:
  "check_old_frm env thd vw mode = Inr vw1 \<Longrightarrow>
   mysql_register_view env thd lx vw mode =
     (let thd1 = (if create_view_algorithm lx = VIEW_ALGORITHM_MERGE \<and> \<not> can_be_merged lx
                  then push_warning ER_WARN_VIEW_MERGE thd else thd);
          vw3 = vw1\<lparr>query := printed lx, source := thd_query thd, file_version := 1,
                    md5 := calc_md5 env (printed lx),
                    algorithm := stored_algorithm lx, with_check := create_view_check lx,
                    updatable_view := compute_updatable env lx\<rparr>
      in if create_view_check lx \<noteq> VIEW_CHECK_NONE \<and> \<not> compute_updatable env lx
         then (- 1, my_error (ER_VIEW_NONUPD_CHECK (db vw) (table_name vw)) thd1, vw3)
         else sql_create_definition_file env thd1 vw3)"
  using check_old_frm_names [of env thd vw mode vw1]
  by (simp add: mysql_register_view_def Let_def)

lemma register_check_option:
  "check_old_frm env thd vw mode = Inr vw1 \<Longrightarrow> \<not> compute_updatable env lx \<Longrightarrow>
   create_view_check lx \<noteq> VIEW_CHECK_NONE \<Longrightarrow>
   fst (mysql_register_view env thd lx vw mode) = - 1 \<and>
   errors (fst (snd (mysql_register_view env thd lx vw mode))) =
     errors thd @ [ER_VIEW_NONUPD_CHECK (db vw) (table_name vw)] \<and>
   files (fst (snd (mysql_register_view env thd lx vw mode))) = files thd"
  by (simp add: register_after_frm Let_def my_error_def push_warning_def)

lemma compute_updatable_cong:
  "can_be_merged lx' = can_be_merged lx \<Longrightarrow> create_view_algorithm lx' = create_view_algorithm lx \<Longrightarrow>
   table_list (select_lex lx') = table_list (select_lex lx) \<Longrightarrow>
   next_selects lx' = next_selects lx \<Longrightarrow> query_tables lx' = query_tables lx \<Longrightarrow>
   compute_updatable env lx' = compute_updatable env lx"
proof -
  assume a: "can_be_merged lx' = can_be_merged lx"
    "create_view_algorithm lx' = create_view_algorithm lx"
    "table_list (select_lex lx') = table_list (select_lex lx)"
    "next_selects lx' = next_selects lx" "query_tables lx' = query_tables lx"
  have s: "stored_algorithm lx' = stored_algorithm lx"
    by (simp only: stored_algorithm_def a)
  have m: "main_table_used_in_subquery env lx' = main_table_used_in_subquery env lx"
    by (simp only: main_table_used_in_subquery_def a)
  show ?thesis
    by (simp only: compute_updatable_def a s m)
qed


lemma register_cong:
  assumes a: "can_be_merged lx' = can_be_merged lx"
    "create_view_algorithm lx' = create_view_algorithm lx"
    "table_list (select_lex lx') = table_list (select_lex lx)"
    "next_selects lx' = next_selects lx" "query_tables lx' = query_tables lx"
    and b: "printed lx' = printed lx" "create_view_check lx' = create_view_check lx"
  shows "mysql_register_view env thd lx' vw mode = mysql_register_view env thd lx vw mode"
proof -
  have s: "stored_algorithm lx' = stored_algorithm lx"
    by (simp only: stored_algorithm_def a)
  have c: "compute_updatable env lx' = compute_updatable env lx"
    using a by (rule compute_updatable_cong)
  show ?thesis
    by (simp only: mysql_register_view_def a b s c)
qed

lemma register_prepared_lex:
  "mysql_register_view env thd
     (if names \<noteq> []
      then lx\<lparr>view_prepare_mode := True,
              select_lex := (select_lex (lx\<lparr>view_prepare_mode := True\<rparr>))\<lparr>item_list := items\<rparr>\<rparr>
      else lx\<lparr>view_prepare_mode := True\<rparr>) vw mode =
   mysql_register_view env thd lx vw mode"
  by (rule register_cong) simp_all

lemma create_view_prepared_outcome:
  "create_view_prepared env thd lx vw mode = (res, thd', vw') \<Longrightarrow>
   (res \<and> files thd' = files thd \<and> invalidated thd' = invalidated thd \<and> ok_sent thd' = ok_sent thd
        \<and> vw' = vw \<and> errors thd' \<noteq> errors thd) \<or>
   (\<exists>r thd1. mysql_register_view env thd lx vw mode = (r, thd1, vw') \<and>
      res = (r \<noteq> 0) \<and>
      thd' = thd1\<lparr>invalidated := (if revision vw' \<noteq> 1
                                     then invalidated thd1 @ [(db vw', table_name vw')]
                                     else invalidated thd1),
                   ok_sent := (if r = 0 then True else ok_sent thd1)\<rparr>)"
  unfolding create_view_prepared_def Let_def register_prepared_lex
  by (auto simp: goto_err_def my_error_def report_error_def
      split: if_splits option.splits list.splits prod.splits)


lemma create_definition_file_frame:
  "sql_create_definition_file env thd vw = (r, thd1, vw1) \<Longrightarrow>
   invalidated thd1 = invalidated thd \<and> ok_sent thd1 = ok_sent thd \<and> warnings thd1 = warnings thd \<and>
   (r \<noteq> 0 \<longrightarrow> files thd1 = files thd \<and> vw1 = vw) \<and>
   (r = 0 \<longrightarrow> vw1 = vw\<lparr>revision := revision vw + 1\<rparr> \<and> errors thd1 = errors thd \<and>
      files thd1 = (files thd)(frm_path (mysql_data_home env) (db vw) (table_name vw) \<mapsto>
                                 Contents (definition_file env vw1)))"
  by (auto simp: sql_create_definition_file_def Let_def my_error_def report_error_def
      split: option.splits if_splits)

lemma check_old_frm_Inl_frame:
  "check_old_frm env thd vw mode = Inl (r, thd1) \<Longrightarrow>
   invalidated thd1 = invalidated thd \<and> ok_sent thd1 = ok_sent thd \<and> files thd1 = files thd \<and>
   warnings thd1 = warnings thd"
  by (auto simp: check_old_frm_def Let_def my_error_def
      split: option.splits if_splits parse_outcome.splits)

lemma register_frame:
  assumes "mysql_register_view env thd lx vw mode = (r, thd1, vw1)"
  shows "invalidated thd1 = invalidated thd \<and> ok_sent thd1 = ok_sent thd \<and>
         (r \<noteq> 0 \<longrightarrow> files thd1 = files thd)"
proof (cases "check_old_frm env thd vw mode")
  case (Inl p)
  obtain r0 thd0 where p: "p = (r0, thd0)" by (cases p)
  with Inl assms have "thd1 = thd0" by (simp add: mysql_register_view_def)
  with Inl p show ?thesis using check_old_frm_Inl_frame [of env thd vw mode r0 thd0] by simp
next
  case (Inr vw0)
  show ?thesis
  proof (cases "create_view_check lx \<noteq> VIEW_CHECK_NONE \<and> \<not> compute_updatable env lx")
    case True
    with Inr assms show ?thesis
      by (auto simp: register_after_frm Let_def my_error_def push_warning_def split: if_splits)
  next
    case False
    with Inr assms obtain thdw vw3 where
      w: "sql_create_definition_file env thdw vw3 = (r, thd1, vw1)"
      and t: "invalidated thdw = invalidated thd" "ok_sent thdw = ok_sent thd" "files thdw = files thd"
      by (auto simp: register_after_frm Let_def push_warning_def split: if_splits)
    from create_definition_file_frame [OF w] t show ?thesis by simp
  qed
qed

lemma create_view_outcome:
  "mysql_create_view env thd lx vw mode = (res, thd', vw') \<Longrightarrow>
   (res \<and> files thd' = files thd \<and> invalidated thd' = invalidated thd \<and> ok_sent thd' = ok_sent thd
        \<and> vw' = vw \<and> errors thd' \<noteq> errors thd) \<or>
   (\<exists>lx1. open_and_lock_tables env lx = Some lx1 \<and> check_view_tables vw (query_tables lx1) = None \<and>
      create_view_prepared env thd lx1 vw mode = (res, thd', vw'))"
  unfolding mysql_create_view_def
  by (auto simp: goto_err_def my_error_def report_error_def
      split: if_splits option.splits list.splits)


lemma register_new:
  assumes absent: "files thd (frm_path (mysql_data_home env) (db vw) (table_name vw)) = None"
    and reg: "mysql_register_view env thd lx vw mode = (0, thd1, vw1)"
  shows "revision vw1 = revision vw + 1 \<and>
         files thd1 (frm_path (mysql_data_home env) (db vw) (table_name vw)) =
           Some (Contents (definition_file env vw1))"
proof -
  have frm: "check_old_frm env thd vw mode = Inr vw"
  proof (cases "mode = VIEW_ALTER")
    case True
    with absent reg show ?thesis
      by (simp add: mysql_register_view_def check_old_frm_def)
  next
    case False
    with absent show ?thesis by (simp add: check_old_frm_def)
  qed
  from reg obtain thdw vw3 where
    w: "sql_create_definition_file env thdw vw3 = (0, thd1, vw1)"
    and v: "revision vw3 = revision vw" "db vw3 = db vw" "table_name vw3 = table_name vw"
    by (auto simp: register_after_frm [OF frm] Let_def split: if_splits)
  from create_definition_file_frame [OF w] v show ?thesis by simp
qed

text \<open>
  C8: when CREATE or ALTER VIEW succeeds, \<^verbatim>\<open>query_cache_invalidate3\<close> is called for the
  view exactly when the resulting revision is not 1. A view created where no record
  existed (the in-memory revision being 0) gets revision 1, so nothing is invalidated
  for a first creation.
\<close>

theorem create_view_invalidates_unless_first:
  "mysql_create_view env thd lx vw mode = (False, thd', vw') \<Longrightarrow>
   invalidated thd' =
     (if revision vw' \<noteq> 1 then invalidated thd @ [(db vw', table_name vw')] else invalidated thd)
   \<and> (files thd (frm_path (mysql_data_home env) (db vw) (table_name vw)) = None \<and> revision vw = 0
        \<longrightarrow> revision vw' = 1 \<and>
            files thd' (frm_path (mysql_data_home env) (db vw) (table_name vw)) =
              Some (Contents (definition_file env vw')))"
proof -
  assume run: "mysql_create_view env thd lx vw mode = (False, thd', vw')"
  from create_view_outcome [OF run] obtain lx1 where
    prep: "create_view_prepared env thd lx1 vw mode = (False, thd', vw')"
    by auto
  from create_view_prepared_outcome [OF prep] obtain thd1 where
    reg: "mysql_register_view env thd lx1 vw mode = (0, thd1, vw')"
    and t: "thd' = thd1\<lparr>invalidated := (if revision vw' \<noteq> 1
                                     then invalidated thd1 @ [(db vw', table_name vw')]
                                     else invalidated thd1),
                         ok_sent := True\<rparr>"
    by auto
  from register_frame [OF reg] have inv: "invalidated thd1 = invalidated thd" by simp
  have first: "invalidated thd' =
     (if revision vw' \<noteq> 1 then invalidated thd @ [(db vw', table_name vw')] else invalidated thd)"
    using t inv by simp
  have second: "files thd (frm_path (mysql_data_home env) (db vw) (table_name vw)) = None \<and> revision vw = 0
        \<longrightarrow> revision vw' = 1 \<and>
            files thd' (frm_path (mysql_data_home env) (db vw) (table_name vw)) =
              Some (Contents (definition_file env vw'))"
    using register_new [OF _ reg] t by simp
  from first second show ?thesis by blast
qed

text \<open>
  C4: when the computation of the updatable flag is reached (the check of the old record
  passes), the flag comes out false and a check option other than NONE is requested,
  \<^verbatim>\<open>mysql_register_view\<close> returns -1 with the error
  \<^verbatim>\<open>ER_VIEW_NONUPD_CHECK\<close> and writes no file; its caller then returns the error and
  neither writes a file nor acknowledges the statement.
\<close>

theorem check_option_requires_updatable:
  "check_old_frm env thd vw mode = Inr vw1 \<Longrightarrow> \<not> compute_updatable env lx \<Longrightarrow>
   create_view_check lx \<noteq> VIEW_CHECK_NONE \<Longrightarrow>
   fst (mysql_register_view env thd lx vw mode) = - 1
   \<and> errors (fst (snd (mysql_register_view env thd lx vw mode))) =
       errors thd @ [ER_VIEW_NONUPD_CHECK (db vw) (table_name vw)]
   \<and> files (fst (snd (mysql_register_view env thd lx vw mode))) = files thd
   \<and> fst (create_view_prepared env thd lx vw mode)
   \<and> files (fst (snd (create_view_prepared env thd lx vw mode))) = files thd
   \<and> ok_sent (fst (snd (create_view_prepared env thd lx vw mode))) = ok_sent thd"
proof -
  assume frm: "check_old_frm env thd vw mode = Inr vw1" and nu: "\<not> compute_updatable env lx"
    and chk: "create_view_check lx \<noteq> VIEW_CHECK_NONE"
  note reg = register_check_option [OF frm nu chk]
  obtain res thd' vw' where p: "create_view_prepared env thd lx vw mode = (res, thd', vw')"
    by (cases "create_view_prepared env thd lx vw mode") auto
  from create_view_prepared_outcome [OF p]
  have "res \<and> files thd' = files thd \<and> ok_sent thd' = ok_sent thd"
  proof
    assume "res \<and> files thd' = files thd \<and> invalidated thd' = invalidated thd \<and>
      ok_sent thd' = ok_sent thd \<and> vw' = vw \<and> errors thd' \<noteq> errors thd"
    then show ?thesis by simp
  next
    assume "\<exists>r thd1. mysql_register_view env thd lx vw mode = (r, thd1, vw') \<and> res = (r \<noteq> 0) \<and>
      thd' = thd1\<lparr>invalidated := (if revision vw' \<noteq> 1
                                     then invalidated thd1 @ [(db vw', table_name vw')]
                                     else invalidated thd1),
                   ok_sent := (if r = 0 then True else ok_sent thd1)\<rparr>"
    then obtain r thd1 where r: "mysql_register_view env thd lx vw mode = (r, thd1, vw')"
      and res: "res = (r \<noteq> 0)"
      and t: "thd' = thd1\<lparr>invalidated := (if revision vw' \<noteq> 1
                                     then invalidated thd1 @ [(db vw', table_name vw')]
                                     else invalidated thd1),
                   ok_sent := (if r = 0 then True else ok_sent thd1)\<rparr>"
      by blast
    from reg r have r1: "r = - 1" and f1: "files thd1 = files thd" by simp_all
    from register_frame [OF r] have "ok_sent thd1 = ok_sent thd" by simp
    with r1 f1 res t show ?thesis by simp
  qed
  with reg p show ?thesis by simp
qed


lemmas example_defs =
  plain_env_def plain_thd_def thd_with_v_def select_a_from_t_def plain_table_def
  temptable_with_check_def merge_not_mergeable_def
  select_from_tmp_and_v_def opened_view_v_def view_header_def

lemmas create_view_defs =
  mysql_create_view_def access_denied_def from_clause_tables_def create_view_prepared_def
  first_duplicate_name_def all_items_def column_has_more_privileges_def mysql_register_view_def
  check_old_frm_def frm_path_def reg_ext_def stored_algorithm_def compute_updatable_def
  main_table_used_in_subquery_def sql_create_definition_file_def strncmp_eq_def
  goto_err_def my_error_def push_warning_def report_error_def Let_def

text \<open>
  The C8 theorem on a first creation (revision 1, no invalidation) and on an ALTER of the
  record so created (revision 2, one invalidation).
\<close>

theorem create_view_invalidates_unless_first_witness:
  "fst (mysql_create_view plain_env plain_thd select_a_from_t (plain_table ''v'') VIEW_CREATE_NEW) = False
   \<and> revision (snd (snd (mysql_create_view plain_env plain_thd select_a_from_t (plain_table ''v'')
                          VIEW_CREATE_NEW))) = 1
   \<and> invalidated (fst (snd (mysql_create_view plain_env plain_thd select_a_from_t (plain_table ''v'')
                          VIEW_CREATE_NEW))) = []
   \<and> fst (mysql_create_view plain_env thd_with_v select_a_from_t (plain_table ''v'') VIEW_ALTER) = False
   \<and> revision (snd (snd (mysql_create_view plain_env thd_with_v select_a_from_t (plain_table ''v'')
                          VIEW_ALTER))) = 2
   \<and> invalidated (fst (snd (mysql_create_view plain_env thd_with_v select_a_from_t (plain_table ''v'')
                          VIEW_ALTER))) = [(''db'', ''v'')]"
proof -
  let ?new = "mysql_create_view plain_env plain_thd select_a_from_t (plain_table ''v'') VIEW_CREATE_NEW"
  let ?alt = "mysql_create_view plain_env thd_with_v select_a_from_t (plain_table ''v'') VIEW_ALTER"
  have n: "fst ?new = False" "revision (snd (snd ?new)) = 1" "db (snd (snd ?new)) = ''db''"
    "table_name (snd (snd ?new)) = ''v''"
    by (simp_all add: create_view_defs example_defs)
  have a: "fst ?alt = False" "revision (snd (snd ?alt)) = 2" "db (snd (snd ?alt)) = ''db''"
    "table_name (snd (snd ?alt)) = ''v''"
    by (simp_all add: create_view_defs example_defs)
  have i: "invalidated plain_thd = []" "invalidated thd_with_v = []"
    by (simp_all add: example_defs)
  have en: "?new = (False, fst (snd ?new), snd (snd ?new))"
    using n(1) by (simp add: prod_eq_iff)
  have ea: "?alt = (False, fst (snd ?alt), snd (snd ?alt))"
    using a(1) by (simp add: prod_eq_iff)
  show ?thesis
    using create_view_invalidates_unless_first [OF en] create_view_invalidates_unless_first [OF ea]
      n a i
    by simp
qed


text \<open>
  The C4 theorem on a view requested as a temporary table WITH CASCADED CHECK OPTION.
\<close>

theorem check_option_requires_updatable_witness:
  "check_old_frm plain_env plain_thd (plain_table ''v'') VIEW_CREATE_NEW = Inr (plain_table ''v'')
   \<and> \<not> compute_updatable plain_env temptable_with_check
   \<and> create_view_check temptable_with_check \<noteq> VIEW_CHECK_NONE
   \<and> fst (mysql_register_view plain_env plain_thd temptable_with_check (plain_table ''v'')
            VIEW_CREATE_NEW) = - 1
   \<and> errors (fst (snd (mysql_register_view plain_env plain_thd temptable_with_check
                         (plain_table ''v'') VIEW_CREATE_NEW))) = [ER_VIEW_NONUPD_CHECK ''db'' ''v'']
   \<and> files (fst (snd (mysql_register_view plain_env plain_thd temptable_with_check
                        (plain_table ''v'') VIEW_CREATE_NEW))) = Map.empty
   \<and> fst (create_view_prepared plain_env plain_thd temptable_with_check (plain_table ''v'')
            VIEW_CREATE_NEW)"
proof -
  have h1: "check_old_frm plain_env plain_thd (plain_table ''v'') VIEW_CREATE_NEW = Inr (plain_table ''v'')"
    by (simp add: check_old_frm_def example_defs)
  have h2: "\<not> compute_updatable plain_env temptable_with_check"
    by (simp add: compute_updatable_def stored_algorithm_def example_defs)
  have h3: "create_view_check temptable_with_check \<noteq> VIEW_CHECK_NONE"
    by (simp add: example_defs)
  have e: "errors plain_thd = []" "files plain_thd = Map.empty" "db (plain_table ''v'') = ''db''"
    "table_name (plain_table ''v'') = ''v''"
    by (simp_all add: example_defs)
  show ?thesis
    using check_option_requires_updatable [OF h1 h2 h3] h1 h2 h3 e by simp
qed

text \<open>
  C9 (as amended): when MERGE is requested and the query cannot be merged, a warning is
  pushed and the stored algorithm is UNDEFINED, not TEMPTABLE; the view is classified
  not updatable, so the record is written when no check option is requested and the
  statement fails with \<^verbatim>\<open>ER_VIEW_NONUPD_CHECK\<close> otherwise.
\<close>

theorem merge_request_downgraded:
  "create_view_algorithm lx = VIEW_ALGORITHM_MERGE \<Longrightarrow> \<not> can_be_merged lx \<Longrightarrow>
   check_old_frm env thd vw mode = Inr vw1 \<Longrightarrow>
   mysql_register_view env thd lx vw mode = (r, thd', vw') \<Longrightarrow>
   algorithm vw' = VIEW_ALGORITHM_UNDEFINED \<and> \<not> updatable_view vw'
   \<and> warnings thd' = warnings thd @ [ER_WARN_VIEW_MERGE]
   \<and> (create_view_check lx \<noteq> VIEW_CHECK_NONE \<longrightarrow>
         r = - 1 \<and> errors thd' = errors thd @ [ER_VIEW_NONUPD_CHECK (db vw) (table_name vw)] \<and>
         files thd' = files thd)
   \<and> (create_view_check lx = VIEW_CHECK_NONE \<and>
       write_outcome env (frm_path (mysql_data_home env) (db vw) (table_name vw)) = None \<longrightarrow>
         r = 0 \<and> errors thd' = errors thd \<and>
         files thd' (frm_path (mysql_data_home env) (db vw) (table_name vw)) =
           Some (Contents (definition_file env vw')))"
proof -
  assume m: "create_view_algorithm lx = VIEW_ALGORITHM_MERGE" and c: "\<not> can_be_merged lx"
    and frm: "check_old_frm env thd vw mode = Inr vw1"
    and reg: "mysql_register_view env thd lx vw mode = (r, thd', vw')"
  have nu: "\<not> compute_updatable env lx" using c by (simp add: compute_updatable_def)
  have st: "stored_algorithm lx = VIEW_ALGORITHM_UNDEFINED" using m c by (simp add: stored_algorithm_def)
  note names = check_old_frm_names [OF frm]
  show ?thesis
  proof (cases "create_view_check lx \<noteq> VIEW_CHECK_NONE")
    case True
    with reg m c nu st show ?thesis
      by (auto simp: register_after_frm [OF frm] Let_def my_error_def push_warning_def)
  next
    case False
    with reg m c nu obtain vw3 where
      w: "sql_create_definition_file env (push_warning ER_WARN_VIEW_MERGE thd) vw3 = (r, thd', vw')"
      and v: "algorithm vw3 = VIEW_ALGORITHM_UNDEFINED" "\<not> updatable_view vw3"
        "db vw3 = db vw" "table_name vw3 = table_name vw"
      using st names by (auto simp: register_after_frm [OF frm] Let_def)
    from w v False show ?thesis
      by (auto simp: sql_create_definition_file_def Let_def push_warning_def my_error_def
          split: option.splits if_splits)
  qed
qed

text \<open>
  C9 as stated fails: MERGE is requested for a query over one plain base table that
  cannot be merged; every other updatability condition holds and the record is written,
  with algorithm UNDEFINED, but the view is classified not updatable.
\<close>

theorem merge_request_not_updatable_counterexample:
  "create_view_algorithm merge_not_mergeable = VIEW_ALGORITHM_MERGE
   \<and> \<not> can_be_merged merge_not_mergeable
   \<and> tables_allow_update (table_list (select_lex merge_not_mergeable))
   \<and> \<not> main_table_used_in_subquery plain_env merge_not_mergeable
   \<and> fst (mysql_register_view plain_env plain_thd merge_not_mergeable (plain_table ''v'')
            VIEW_CREATE_NEW) = 0
   \<and> algorithm (snd (snd (mysql_register_view plain_env plain_thd merge_not_mergeable
                            (plain_table ''v'') VIEW_CREATE_NEW))) = VIEW_ALGORITHM_UNDEFINED
   \<and> \<not> updatable_view (snd (snd (mysql_register_view plain_env plain_thd merge_not_mergeable
                                   (plain_table ''v'') VIEW_CREATE_NEW)))"
  by (simp add: create_view_defs example_defs)

text \<open>
  The C9 theorem on that definition, without a check option (the record is written) and
  with one (the statement fails with \<^verbatim>\<open>ER_VIEW_NONUPD_CHECK\<close>).
\<close>

theorem merge_request_downgraded_witness:
  "create_view_algorithm merge_not_mergeable = VIEW_ALGORITHM_MERGE
   \<and> \<not> can_be_merged merge_not_mergeable
   \<and> check_old_frm plain_env plain_thd (plain_table ''v'') VIEW_CREATE_NEW = Inr (plain_table ''v'')
   \<and> warnings (fst (snd (mysql_register_view plain_env plain_thd merge_not_mergeable
                           (plain_table ''v'') VIEW_CREATE_NEW))) = [ER_WARN_VIEW_MERGE]
   \<and> fst (mysql_register_view plain_env plain_thd merge_not_mergeable (plain_table ''v'')
            VIEW_CREATE_NEW) = 0
   \<and> errors (fst (snd (mysql_register_view plain_env plain_thd merge_not_mergeable
                         (plain_table ''v'') VIEW_CREATE_NEW))) = []
   \<and> fst (mysql_register_view plain_env plain_thd
            (merge_not_mergeable\<lparr>create_view_check := VIEW_CHECK_LOCAL\<rparr>) (plain_table ''v'')
            VIEW_CREATE_NEW) = - 1
   \<and> errors (fst (snd (mysql_register_view plain_env plain_thd
                         (merge_not_mergeable\<lparr>create_view_check := VIEW_CHECK_LOCAL\<rparr>)
                         (plain_table ''v'') VIEW_CREATE_NEW))) = [ER_VIEW_NONUPD_CHECK ''db'' ''v'']
   \<and> files (fst (snd (mysql_register_view plain_env plain_thd
                        (merge_not_mergeable\<lparr>create_view_check := VIEW_CHECK_LOCAL\<rparr>)
                        (plain_table ''v'') VIEW_CREATE_NEW))) = Map.empty"
proof -
  let ?reg = "mysql_register_view plain_env plain_thd merge_not_mergeable (plain_table ''v'') VIEW_CREATE_NEW"
  let ?lxc = "merge_not_mergeable\<lparr>create_view_check := VIEW_CHECK_LOCAL\<rparr>"
  let ?regc = "mysql_register_view plain_env plain_thd ?lxc (plain_table ''v'') VIEW_CREATE_NEW"
  have h1: "create_view_algorithm merge_not_mergeable = VIEW_ALGORITHM_MERGE"
    and h2: "\<not> can_be_merged merge_not_mergeable"
    by (simp_all add: example_defs)
  have c1: "create_view_algorithm ?lxc = VIEW_ALGORITHM_MERGE"
    and c2: "\<not> can_be_merged ?lxc"
    by (simp_all add: example_defs)
  have h3: "check_old_frm plain_env plain_thd (plain_table ''v'') VIEW_CREATE_NEW = Inr (plain_table ''v'')"
    by (simp add: check_old_frm_def example_defs)
  have h4: "?reg = (fst ?reg, fst (snd ?reg), snd (snd ?reg))" by simp
  have c4: "?regc = (fst ?regc, fst (snd ?regc), snd (snd ?regc))" by simp
  have e: "warnings plain_thd = []" "errors plain_thd = []" "files plain_thd = Map.empty"
    "create_view_check merge_not_mergeable = VIEW_CHECK_NONE"
    "create_view_check ?lxc \<noteq> VIEW_CHECK_NONE"
    "db (plain_table ''v'') = ''db''" "table_name (plain_table ''v'') = ''v''"
    "write_outcome plain_env (frm_path (mysql_data_home plain_env) (db (plain_table ''v''))
        (table_name (plain_table ''v''))) = None"
    by (simp_all add: example_defs)
  show ?thesis
    using merge_request_downgraded [OF h1 h2 h3 h4] merge_request_downgraded [OF c1 c2 h3 c4]
      h1 h2 h3 e
    by simp
qed


lemma check_view_tables_self_reference:
  "tbl \<in> set tbls \<Longrightarrow> view (node tbl) \<noteq> None \<Longrightarrow> view_db (node tbl) = db vw \<Longrightarrow>
   view_name (node tbl) = table_name vw \<Longrightarrow> check_view_tables vw tbls \<noteq> None"
  by (induction tbls) auto

lemma check_view_tables_first_self_reference:
  "\<forall>t \<in> set pre. \<not> (tmp_table (node t) \<and> view (node t) = None \<and> \<not> schema_table (node t)) \<Longrightarrow>
   view (node tbl) \<noteq> None \<Longrightarrow> view_db (node tbl) = db vw \<Longrightarrow>
   view_name (node tbl) = table_name vw \<Longrightarrow>
   check_view_tables vw (pre @ tbl # post) = Some (ER_NO_SUCH_TABLE (db vw) (table_name vw))"
  by (induction pre) auto

text \<open>
  C6 (as amended): when the opened table list of a CREATE or ALTER holds a view whose
  qualified name is the name being defined, the statement fails and writes no file.
  The error is the self-reference error (\<^verbatim>\<open>ER_NO_SUCH_TABLE\<close> naming the view) when
  the earlier checks pass (clauses, privileges) and no temporary table stands before
  the reference in the list.
\<close>

theorem self_reference_rejected:
  "open_and_lock_tables env lx = Some lx1 \<Longrightarrow>
   query_tables lx1 = pre @ tbl # post \<Longrightarrow>
   view (node tbl) \<noteq> None \<Longrightarrow> view_db (node tbl) = db vw \<Longrightarrow>
   view_name (node tbl) = table_name vw \<Longrightarrow>
   fst (mysql_create_view env thd lx vw mode)
   \<and> files (fst (snd (mysql_create_view env thd lx vw mode))) = files thd
   \<and> (\<not> proc_list_first lx \<and> \<not> result lx \<and> derived_tables lx = 0 \<and> \<not> variables_used lx \<and>
       param_list_elements lx = 0 \<and>
       \<not> access_denied env CREATE_VIEW_ACL vw \<and>
       (mode = VIEW_CREATE_NEW \<or> \<not> access_denied env DROP_ACL vw) \<and>
       (\<forall>t \<in> set (from_clause_tables lx). \<not> check_some_access env (node t)) \<and>
       (\<forall>t \<in> set (query_tables lx). \<not> access_denied env SELECT_ACL (node t)) \<and>
       (\<forall>t \<in> set pre. \<not> (tmp_table (node t) \<and> view (node t) = None \<and> \<not> schema_table (node t)))
       \<longrightarrow> mysql_create_view env thd lx vw mode =
             (True, my_error (ER_NO_SUCH_TABLE (db vw) (table_name vw)) thd, vw))"
proof -
  assume opn: "open_and_lock_tables env lx = Some lx1"
    and q: "query_tables lx1 = pre @ tbl # post"
    and self: "view (node tbl) \<noteq> None" "view_db (node tbl) = db vw"
      "view_name (node tbl) = table_name vw"
  have mem: "tbl \<in> set (query_tables lx1)" using q by simp
  have found: "check_view_tables vw (query_tables lx1) \<noteq> None"
    using check_view_tables_self_reference [OF mem self] .
  obtain res thd' vw' where run: "mysql_create_view env thd lx vw mode = (res, thd', vw')"
    by (cases "mysql_create_view env thd lx vw mode") auto
  from create_view_outcome [OF run] opn found
  have fails: "res \<and> files thd' = files thd" by auto
  have exact: "mysql_create_view env thd lx vw mode =
             (True, my_error (ER_NO_SUCH_TABLE (db vw) (table_name vw)) thd, vw)"
    if pass: "\<not> proc_list_first lx" "\<not> result lx" "derived_tables lx = 0" "\<not> variables_used lx"
       "param_list_elements lx = 0" "\<not> access_denied env CREATE_VIEW_ACL vw"
       "mode = VIEW_CREATE_NEW \<or> \<not> access_denied env DROP_ACL vw"
       "\<forall>t \<in> set (from_clause_tables lx). \<not> check_some_access env (node t)"
       "\<forall>t \<in> set (query_tables lx). \<not> access_denied env SELECT_ACL (node t)"
       and notmp: "\<forall>t \<in> set pre. \<not> (tmp_table (node t) \<and> view (node t) = None \<and> \<not> schema_table (node t))"
  proof -
    have f: "filter (\<lambda>t. check_some_access env (node t)) (from_clause_tables lx) = []"
      using pass(8) by (simp add: filter_empty_conv)
    have c: "check_view_tables vw (query_tables lx1) = Some (ER_NO_SUCH_TABLE (db vw) (table_name vw))"
      unfolding q using check_view_tables_first_self_reference [OF notmp self] .
    have s: "\<not> (has_inner_selects lx \<and>
                (\<exists>t \<in> set (query_tables lx).
                    addr t \<notin> addr ` set (from_clause_tables lx) \<and>
                    access_denied env SELECT_ACL (node t)))"
      using pass(9) by blast
    show ?thesis
      unfolding mysql_create_view_def using pass(1-7) s
      by (auto simp: f opn c goto_err_def my_error_def report_error_def)
  qed
  from fails run exact show ?thesis by simp
qed

text \<open>
  C6 as stated fails: the defining query refers to a temporary table and then to the view
  being altered; the statement fails with the temporary-table error, not with the
  self-reference error.
\<close>

theorem self_reference_after_temporary_table_counterexample:
  "open_and_lock_tables plain_env select_from_tmp_and_v = Some select_from_tmp_and_v
   \<and> query_tables select_from_tmp_and_v =
       [Table_ref 1 ((plain_table ''tmp'')\<lparr>tmp_table := True\<rparr>) None, Table_ref 2 opened_view_v None]
   \<and> view opened_view_v \<noteq> None
   \<and> view_db opened_view_v = db (plain_table ''v'')
   \<and> view_name opened_view_v = table_name (plain_table ''v'')
   \<and> mysql_create_view plain_env thd_with_v select_from_tmp_and_v (plain_table ''v'') VIEW_ALTER =
       (True, thd_with_v\<lparr>errors := [ER_VIEW_SELECT_TMPTABLE ''tmp'']\<rparr>, plain_table ''v'')"
  by (simp add: create_view_defs example_defs)

text \<open>The C6 theorem on \<^verbatim>\<open>ALTER VIEW v AS SELECT a FROM v\<close>, \<^verbatim>\<open>v\<close> an existing view.\<close>

theorem self_reference_rejected_witness:
  "open_and_lock_tables plain_env (select_a_from_t\<lparr>query_tables := [Table_ref 2 opened_view_v None]\<rparr>) =
     Some (select_a_from_t\<lparr>query_tables := [Table_ref 2 opened_view_v None]\<rparr>)
   \<and> mysql_create_view plain_env thd_with_v
        (select_a_from_t\<lparr>query_tables := [Table_ref 2 opened_view_v None]\<rparr>) (plain_table ''v'') VIEW_ALTER =
       (True, thd_with_v\<lparr>errors := [ER_NO_SUCH_TABLE ''db'' ''v'']\<rparr>, plain_table ''v'')"
proof -
  let ?lx = "select_a_from_t\<lparr>query_tables := [Table_ref 2 opened_view_v None]\<rparr>"
  have h1: "open_and_lock_tables plain_env ?lx = Some ?lx" by (simp add: plain_env_def)
  have h2: "query_tables ?lx = [] @ Table_ref 2 opened_view_v None # []" by simp
  have h3: "view (node (Table_ref 2 opened_view_v None)) \<noteq> None"
    "view_db (node (Table_ref 2 opened_view_v None)) = db (plain_table ''v'')"
    "view_name (node (Table_ref 2 opened_view_v None)) = table_name (plain_table ''v'')"
    by (simp_all add: example_defs)
  have p: "\<not> proc_list_first ?lx" "\<not> result ?lx" "derived_tables ?lx = 0" "\<not> variables_used ?lx"
    "param_list_elements ?lx = 0" "\<not> access_denied plain_env CREATE_VIEW_ACL (plain_table ''v'')"
    "\<not> access_denied plain_env DROP_ACL (plain_table ''v'')"
    "\<forall>t \<in> set (from_clause_tables ?lx). \<not> check_some_access plain_env (node t)"
    "\<forall>t \<in> set (query_tables ?lx). \<not> access_denied plain_env SELECT_ACL (node t)"
    by (simp_all add: example_defs access_denied_def from_clause_tables_def)
  have e: "my_error (ER_NO_SUCH_TABLE (db (plain_table ''v'')) (table_name (plain_table ''v''))) thd_with_v =
      thd_with_v\<lparr>errors := [ER_NO_SUCH_TABLE ''db'' ''v'']\<rparr>"
    by (simp add: my_error_def example_defs)
  show ?thesis
    using self_reference_rejected [OF h1 h2 h3, of thd_with_v VIEW_ALTER] h1 p e by simp
qed

section \<open>Properties of view resolution\<close>

subsection \<open>What the loops over the store leave unchanged\<close>

lemma for_next_local_frame_aux:
  "for_next_local body p h = Some h' \<Longrightarrow> (\<forall>n. F (body n) = F n) \<longrightarrow> (\<forall>a. F (h' a) = F (h a))"
proof (rule for_next_local.raw_induct
    [where P = "\<lambda>body p h h'. (\<forall>n. F (body n) = F n) \<longrightarrow> (\<forall>a. F (h' a) = F (h a))"])
  fix f body tbl h h'
  assume ih: "\<And>body tbl h h'. f body tbl h = Some h' \<Longrightarrow>
        (\<forall>n. F (body n) = F n) \<longrightarrow> (\<forall>a. F (h' a) = F (h a))"
    and step: "(case tbl of None \<Rightarrow> Some h
          | Some a \<Rightarrow> let h' = h(a := body (h a)) in f body (next_local (h' a)) h') = Some h'"
  show "(\<forall>n. F (body n) = F n) \<longrightarrow> (\<forall>a. F (h' a) = F (h a))"
  proof (cases tbl)
    case None
    with step show ?thesis by simp
  next
    case (Some a)
    with step have "f body (next_local ((h(a := body (h a))) a)) (h(a := body (h a))) = Some h'"
      by (simp add: Let_def)
    from ih [OF this] show ?thesis by auto
  qed
qed assumption


lemma for_next_local_frame:
  "for_next_local body p h = Some h' \<Longrightarrow> (\<And>n. F (body n) = F n) \<Longrightarrow> F (h' a) = F (h a)"
  using for_next_local_frame_aux [of body p h h' F] by blast

lemma fold_join_list_frame:
  "(\<And>n. F (n\<lparr>join_list := j, embedding := e\<rparr>) = F n) \<Longrightarrow>
   F (fold (\<lambda>a h. h(a := (h a)\<lparr>join_list := j, embedding := e\<rparr>)) xs h a) = F (h a)"
  by (induction xs arbitrary: h) auto

lemma merge_view_result:
  assumes m: "merge_view table lx h = Some h'"
  shows "effective_algorithm (h' table) = VIEW_ALGORITHM_MERGE"
    and "updatable (h' table) = updatable_view (h table)"
    and "prelocking_placeholder (h' table) = prelocking_placeholder (h table)"
    and "next_global (h' a) = next_global (h a)"
proof -
  let ?h1 = "h(table := (h table)\<lparr>effective_algorithm := VIEW_ALGORITHM_MERGE,
                                   updatable := updatable_view (h table),
                                   effective_with_check := with_check (h table),
                                   ancestor := query_tables lx\<rparr>)"
  from m obtain h2 where
    l: "for_next_local (\<lambda>tbl. tbl\<lparr>tl_select_lex := tl_select_lex (?h1 table)\<rparr>)
          (table_list (select_lex lx)) ?h1 = Some h2"
    by (auto simp: merge_view_def Let_def split: option.splits)
  define h3 where "h3 = (case query_tables lx of
                          None \<Rightarrow> h2
                        | Some first_table \<Rightarrow>
                            if next_local (h2 first_table) \<noteq> None
                            then h2(table := (h2 table)\<lparr>multitable_view := True\<rparr>)
                            else h2)"
  define h4 where "h4 = h3(table := (h3 table)\<lparr>nested_join := Some (top_join_list (select_lex lx))\<rparr>)"
  define h5 where "h5 = fold (\<lambda>a h. h(a := (h a)\<lparr>join_list := Some table, embedding := Some table\<rparr>))
                         (top_join_list (select_lex lx)) h4"
  have h': "h' = h5(table := (h5 table)\<lparr>tl_where := where_cond (select_lex lx)\<rparr>)"
    using m l by (simp add: merge_view_def Let_def h3_def h4_def h5_def)
  have f2: "F (h2 b) = F (?h1 b)" if "\<And>n s. F (n\<lparr>tl_select_lex := s\<rparr>) = F n" for F :: "TABLE_LIST_node \<Rightarrow> 'x" and b
    using for_next_local_frame [OF l, of F b] that by simp
  have f3: "F (h3 b) = F (h2 b)" if "\<And>n s. F (n\<lparr>multitable_view := s\<rparr>) = F n" for F :: "TABLE_LIST_node \<Rightarrow> 'x" and b
    using that by (simp add: h3_def split: option.splits)
  have f4: "F (h4 b) = F (h3 b)" if "\<And>n s. F (n\<lparr>nested_join := s\<rparr>) = F n" for F :: "TABLE_LIST_node \<Rightarrow> 'x" and b
    using that by (simp add: h4_def)
  have f5: "F (h5 b) = F (h4 b)" if "\<And>n j e. F (n\<lparr>join_list := j, embedding := e\<rparr>) = F n" for F :: "TABLE_LIST_node \<Rightarrow> 'x" and b
    unfolding h5_def using that by (rule fold_join_list_frame)
  have f6: "F (h' b) = F (h5 b)" if "\<And>n s. F (n\<lparr>tl_where := s\<rparr>) = F n" for F :: "TABLE_LIST_node \<Rightarrow> 'x" and b
    using that by (simp add: h')
  have all: "F (h' b) = F (?h1 b)"
    if "\<And>n s. F (n\<lparr>tl_select_lex := s\<rparr>) = F n" "\<And>n s. F (n\<lparr>multitable_view := s\<rparr>) = F n"
       "\<And>n s. F (n\<lparr>nested_join := s\<rparr>) = F n" "\<And>n j e. F (n\<lparr>join_list := j, embedding := e\<rparr>) = F n"
       "\<And>n s. F (n\<lparr>tl_where := s\<rparr>) = F n" for F :: "TABLE_LIST_node \<Rightarrow> 'x" and b
    using f2 [of F b] f3 [of F b] f4 [of F b] f5 [of F b] f6 [of F b] that by simp
  show "effective_algorithm (h' table) = VIEW_ALGORITHM_MERGE"
    using all [of effective_algorithm table] by simp
  show "updatable (h' table) = updatable_view (h table)"
    using all [of updatable table] by simp
  show "prelocking_placeholder (h' table) = prelocking_placeholder (h table)"
    using all [of prelocking_placeholder table] by simp
  show "next_global (h' a) = next_global (h a)"
    using all [of next_global a] by simp
qed


lemma link_view_tables_result:
  assumes "link_view_tables env table lx st = Some (r, st')"
  shows "r = 0" and "view (heap st' table) \<noteq> None" and "parser_calls st' = parser_calls st"
    and "\<not> prelocking_placeholder (heap st' table) \<Longrightarrow>
           (effective_algorithm (heap st' table) = VIEW_ALGORITHM_TMPTABLE \<longrightarrow> \<not> updatable (heap st' table)) \<and>
           (updatable (heap st' table) \<longrightarrow> effective_algorithm (heap st' table) = VIEW_ALGORITHM_MERGE)"
  using assms
  by (auto simp: link_view_tables_def Let_def materialize_view_def merge_view_result
      split: option.splits prod.splits if_splits)

lemma make_view_success:
  assumes "mysql_make_view env parser table st = Some (0, st')"
  shows "view (heap st' table) \<noteq> None"
proof (cases "view (heap st table) = None")
  case False
  with assms show ?thesis by (simp add: mysql_make_view_def)
next
  case True
  with assms obtain lx st1 where "link_view_tables env table lx st1 = Some (0, st')"
    by (auto simp: mysql_make_view_def Let_def make_view_err_def
        split: option.splits prod.splits if_splits)
  from link_view_tables_result(2) [OF this] show ?thesis .
qed

text \<open>
  C3: resolution is idempotent. On a node that already carries its view, the resolver
  returns success at once and leaves the whole state as it is. After a successful
  resolution the node carries its view, so that resolving it again, with whatever
  parser and record, returns success with the identical state and hands no text to the
  parser.
\<close>

theorem resolution_idempotent:
  "(view (heap st table) \<noteq> None \<longrightarrow> mysql_make_view env parser table st = Some (0, st))
   \<and> (mysql_make_view env parser table st = Some (0, st') \<longrightarrow>
        view (heap st' table) \<noteq> None
        \<and> mysql_make_view env' parser' table st' = Some (0, st')
        \<and> parser_calls (snd (the (mysql_make_view env' parser' table st'))) = parser_calls st')"
proof -
  have again: "mysql_make_view env' parser' table st' = Some (0, st')"
    if "view (heap st' table) \<noteq> None"
    using that by (simp add: mysql_make_view_def)
  show ?thesis
    using make_view_success [of env parser table st st'] again
    by (simp add: mysql_make_view_def)
qed

lemma make_view_resolved:
  assumes fresh: "view (heap st table) = None"
    and run: "mysql_make_view env parser table st = Some (0, st')"
    and np: "\<not> prelocking_placeholder (heap st' table)"
  shows "(effective_algorithm (heap st' table) = VIEW_ALGORITHM_TMPTABLE \<longrightarrow> \<not> updatable (heap st' table)) \<and>
         (updatable (heap st' table) \<longrightarrow> effective_algorithm (heap st' table) = VIEW_ALGORITHM_MERGE)"
proof -
  from fresh run obtain lx st1 where "link_view_tables env table lx st1 = Some (0, st')"
    by (auto simp: mysql_make_view_def Let_def make_view_err_def
        split: option.splits prod.splits if_splits)
  from link_view_tables_result(4) [OF this np] show ?thesis .
qed


subsection \<open>Chains and the splice\<close>

lemma node_path_cong:
  "\<forall>a \<in> set xs. f a = g a \<Longrightarrow> node_path f p xs q = node_path g p xs q"
  by (induction xs arbitrary: p) auto

lemma node_path_append:
  "node_path f p (xs @ ys) q \<longleftrightarrow> (\<exists>r. node_path f p xs r \<and> node_path f r ys q)"
  by (induction xs arbitrary: p) auto

lemma node_path_last:
  "node_path f p xs None \<Longrightarrow> xs \<noteq> [] \<Longrightarrow> f (last xs) = None \<and> node_path f p (butlast xs) (Some (last xs))"
  by (induction xs arbitrary: p) auto

lemma node_path_snoc:
  "node_path f p (xs @ [x]) q \<longleftrightarrow> node_path f p xs (Some x) \<and> f x = q"
  by (induction xs arbitrary: p) auto

lemma splice_path:
  assumes outer: "node_path f q (pre @ t # post) None"
    and inner: "node_path f (Some v) vts None"
    and dist: "distinct (pre @ t # post @ vts)"
  shows "node_path (f(last vts := f t, t := Some v)) q (pre @ t # vts @ post) None"
proof -
  let ?g = "f(last vts := f t, t := Some v)"
  from inner have ne: "vts \<noteq> []" by (cases vts) auto
  then have lastin: "last vts \<in> set vts" by simp
  from outer have p1: "node_path f q pre (Some t)" and p2: "node_path f (f t) post None"
    by (auto simp: node_path_append)
  from node_path_last [OF inner ne]
  have i1: "node_path f (Some v) (butlast vts) (Some (last vts))" by simp
  have tl: "t \<noteq> last vts" using dist lastin by auto
  have "\<forall>a \<in> set pre. ?g a = f a" using dist lastin by auto
  then have g1: "node_path ?g q pre (Some t)" using p1 node_path_cong [of pre ?g f] by simp
  have "\<forall>a \<in> set post. ?g a = f a" using dist lastin by auto
  then have g2: "node_path ?g (f t) post None" using p2 node_path_cong [of post ?g f] by simp
  have dv: "distinct vts" using dist by simp
  have "last vts \<notin> set (butlast vts)"
    using dv ne by (metis append_butlast_last_id distinct_append not_distinct_conv_prefix)
  moreover have "t \<notin> set (butlast vts)" using dist by (auto dest: in_set_butlastD)
  ultimately have "\<forall>a \<in> set (butlast vts). ?g a = f a" by auto
  then have "node_path ?g (Some v) (butlast vts) (Some (last vts))"
    using i1 node_path_cong [of "butlast vts" ?g f] by simp
  moreover have "?g (last vts) = f t" using tl by simp
  ultimately have "node_path ?g (Some v) (butlast vts @ [last vts]) (f t)"
    by (simp add: node_path_snoc)
  then have g3: "node_path ?g (Some v) vts (f t)" using ne by simp
  have gt: "?g t = Some v" by simp
  have "node_path ?g (Some t) (t # vts @ post) None"
    using g3 g2 gt by (auto simp: node_path_append)
  with g1 show ?thesis by (auto simp: node_path_append)
qed


lemma mark_view_tables_list:
  "global_list h p xs \<Longrightarrow>
   mark_view_tables top_view p vt h =
     Some (if xs = [] then vt else Some (last xs),
           fold (\<lambda>a h. h(a := (h a)\<lparr>skip_temporary := True, belong_to_view := Some top_view\<rparr>)) xs h)"
proof (induction xs arbitrary: p vt h)
  case Nil
  then show ?case
    by (subst mark_view_tables.simps) (simp add: global_list_def)
next
  case (Cons x xs)
  let ?h = "h(x := (h x)\<lparr>skip_temporary := True, belong_to_view := Some top_view\<rparr>)"
  from Cons.prems have p: "p = Some x"
    and rest: "node_path (\<lambda>a. next_global (h a)) (next_global (h x)) xs None"
    by (simp_all add: global_list_def)
  have same: "(\<lambda>a. next_global (?h a)) = (\<lambda>a. next_global (h a))" by auto
  have nx: "next_global (?h x) = next_global (h x)" by simp
  have "global_list ?h (next_global (?h x)) xs"
    using rest by (simp only: global_list_def same nx)
  from Cons.IH [OF this, of "Some x"]
  have ih: "mark_view_tables top_view (next_global (?h x)) (Some x) ?h =
     Some (if xs = [] then Some x else Some (last xs),
           fold (\<lambda>a h. h(a := (h a)\<lparr>skip_temporary := True, belong_to_view := Some top_view\<rparr>)) xs ?h)" .
  have step: "mark_view_tables top_view (Some x) vt h =
     mark_view_tables top_view (next_global (?h x)) (Some x) ?h"
    by (subst mark_view_tables.simps) (simp only: option.case Let_def)
  show ?case unfolding p step ih by (simp add: fun_upd_def)
qed

lemma for_next_local_list:
  "local_list h p xs \<Longrightarrow> (\<And>n. next_local (body n) = next_local n) \<Longrightarrow>
   for_next_local body p h = Some (fold (\<lambda>a h. h(a := body (h a))) xs h)"
proof (induction xs arbitrary: p h)
  case Nil
  then show ?case
    by (subst for_next_local.simps) (simp add: local_list_def)
next
  case (Cons x xs)
  let ?h = "h(x := body (h x))"
  from Cons.prems have p: "p = Some x"
    and rest: "node_path (\<lambda>a. next_local (h a)) (next_local (h x)) xs None"
    by (simp_all add: local_list_def)
  have same: "(\<lambda>a. next_local (?h a)) = (\<lambda>a. next_local (h a))"
    using Cons.prems(2) by auto
  have nx: "next_local (?h x) = next_local (h x)" using Cons.prems(2) by simp
  have "local_list ?h (next_local (?h x)) xs"
    using rest by (simp only: local_list_def same nx)
  from Cons.IH [OF this Cons.prems(2)]
  have ih: "for_next_local body (next_local (?h x)) ?h =
     Some (fold (\<lambda>a h. h(a := body (h a))) xs ?h)" .
  have step: "for_next_local body (Some x) h = for_next_local body (next_local (?h x)) ?h"
    by (subst for_next_local.simps) (simp only: option.case Let_def)
  show ?case unfolding p step ih by (simp add: fun_upd_def)
qed

lemma fold_update_frame:
  "(\<And>n. F (body n) = F n) \<Longrightarrow> F (fold (\<lambda>a h. h(a := body (h a))) xs h a) = F (h a)"
  by (induction xs arbitrary: h) auto

lemma put_tables_after_view_nexts:
  assumes inner: "global_list h (Some v) vts" and t: "table \<notin> set vts"
  shows "(\<lambda>a. next_global (fst (put_tables_after_view table (Some v) (Some (last vts)) (h, old_lex)) a)) =
         (\<lambda>a. next_global (h a))(last vts := next_global (h table), table := Some v)"
    and "next_local (fst (put_tables_after_view table (Some v) (Some (last vts)) (h, old_lex)) a) =
         next_local (h a)"
    and "query_tables (snd (put_tables_after_view table (Some v) (Some (last vts)) (h, old_lex))) =
         query_tables old_lex"
proof -
  from inner have ne: "vts \<noteq> []" by (cases vts) (auto simp: global_list_def)
  from inner ne have endnull: "next_global (h (last vts)) = None"
    using node_path_last [of "\<lambda>a. next_global (h a)" "Some v" vts] by (simp add: global_list_def)
  have tl: "table \<noteq> last vts" using t ne by auto
  show "(\<lambda>a. next_global (fst (put_tables_after_view table (Some v) (Some (last vts)) (h, old_lex)) a)) =
         (\<lambda>a. next_global (h a))(last vts := next_global (h table), table := Some v)"
    using endnull tl
    by (auto simp: put_tables_after_view_def Let_def fun_eq_iff split: option.splits)
  show "next_local (fst (put_tables_after_view table (Some v) (Some (last vts)) (h, old_lex)) a) =
         next_local (h a)"
    by (auto simp: put_tables_after_view_def Let_def split: option.splits)
  show "query_tables (snd (put_tables_after_view table (Some v) (Some (last vts)) (h, old_lex))) =
         query_tables old_lex"
    by (auto simp: put_tables_after_view_def Let_def split: option.splits)
qed


lemma global_list_cong:
  "(\<And>a. next_global (h' a) = next_global (h a)) \<Longrightarrow> global_list h' p xs = global_list h p xs"
  by (simp add: global_list_def)

lemma local_list_cong:
  "(\<And>a. next_local (h' a) = next_local (h a)) \<Longrightarrow> local_list h' p xs = local_list h p xs"
  by (simp add: local_list_def)

lemma put_tables_after_view_splice:
  assumes outer: "global_list h q (pre @ table # post)"
    and inner: "global_list h p vts"
    and dist: "distinct (pre @ table # post @ vts)"
  shows "global_list (fst (put_tables_after_view table p (if vts = [] then None else Some (last vts)) (h, old_lex)))
           q (pre @ table # vts @ post)"
    and "next_local (fst (put_tables_after_view table p (if vts = [] then None else Some (last vts)) (h, old_lex)) a) =
           next_local (h a)"
    and "query_tables (snd (put_tables_after_view table p (if vts = [] then None else Some (last vts)) (h, old_lex))) =
           query_tables old_lex"
proof -
  let ?r = "put_tables_after_view table p (if vts = [] then None else Some (last vts)) (h, old_lex)"
  have "global_list (fst ?r) q (pre @ table # vts @ post) \<and> next_local (fst ?r a) = next_local (h a) \<and>
        query_tables (snd ?r) = query_tables old_lex"
  proof (cases vts)
    case Nil
    with inner have "p = None" by (simp add: global_list_def)
    with Nil outer show ?thesis by (simp add: put_tables_after_view_def)
  next
    case (Cons v vs)
    with inner have p: "p = Some v" by (simp add: global_list_def)
    have t: "table \<notin> set vts" using dist by auto
    have i: "global_list h (Some v) vts" using inner p by simp
    have sp: "node_path ((\<lambda>a. next_global (h a))(last vts := next_global (h table), table := Some v)) q
                (pre @ table # vts @ post) None"
      using splice_path [of "\<lambda>a. next_global (h a)" q pre table post v vts] outer i dist
      by (simp add: global_list_def)
    have e: "?r = put_tables_after_view table (Some v) (Some (last vts)) (h, old_lex)"
      using Cons p by simp
    show ?thesis
      unfolding e global_list_def put_tables_after_view_nexts(1) [OF i t]
      using sp put_tables_after_view_nexts(2,3) [OF i t] by simp
  qed
  then show "global_list (fst ?r) q (pre @ table # vts @ post)"
    and "next_local (fst ?r a) = next_local (h a)"
    and "query_tables (snd ?r) = query_tables old_lex"
    by simp_all
qed

lemma merge_view_total:
  assumes "local_list h (table_list (select_lex lx)) ls"
  shows "\<exists>h'. merge_view table lx h = Some h'"
proof -
  let ?h1 = "h(table := (h table)\<lparr>effective_algorithm := VIEW_ALGORITHM_MERGE,
                                   updatable := updatable_view (h table),
                                   effective_with_check := with_check (h table),
                                   ancestor := query_tables lx\<rparr>)"
  have "local_list ?h1 (table_list (select_lex lx)) ls"
    using assms local_list_cong [of ?h1 h] by simp
  from for_next_local_list [OF this, of "\<lambda>tbl. tbl\<lparr>tl_select_lex := tl_select_lex (?h1 table)\<rparr>"]
  have "for_next_local (\<lambda>tbl. tbl\<lparr>tl_select_lex := tl_select_lex (?h1 table)\<rparr>)
          (table_list (select_lex lx)) ?h1 =
        Some (fold (\<lambda>a h. h(a := (h a)\<lparr>tl_select_lex := tl_select_lex (?h1 table)\<rparr>)) ls ?h1)"
    by simp
  then show ?thesis
    unfolding merge_view_def Let_def by (simp only: option.case) blast
qed

lemma link_view_tables_splice:
  assumes outer: "global_list (heap st) (query_tables (thd_lex st)) (pre @ table # post)"
    and inner: "global_list (heap st) (query_tables lx) vts"
    and dist: "distinct (pre @ table # post @ vts)"
    and loc: "local_list (heap st) (table_list (select_lex lx)) ls"
  shows "\<exists>st'. link_view_tables env table lx st = Some (0, st') \<and>
           global_list (heap st') (query_tables (thd_lex st')) (pre @ table # vts @ post)"
proof -
  define top_view where "top_view = (case belong_to_view (heap st table) of Some b \<Rightarrow> b | None \<Rightarrow> table)"
  define hm where "hm = fold (\<lambda>a h. h(a := (h a)\<lparr>skip_temporary := True, belong_to_view := Some top_view\<rparr>))
                          vts (heap st)"
  define vtail where "vtail = (if vts = [] then None else Some (last vts))"
  have m: "mark_view_tables top_view (query_tables lx) None (heap st) = Some (vtail, hm)"
    using mark_view_tables_list [OF inner, of top_view None] by (simp add: hm_def vtail_def)
  have Nm: "next_global (hm a) = next_global (heap st a)" for a
    unfolding hm_def
    by (rule fold_update_frame
        [of next_global "\<lambda>n. n\<lparr>skip_temporary := True, belong_to_view := Some top_view\<rparr>"]) simp
  have Lm: "next_local (hm a) = next_local (heap st a)" for a
    unfolding hm_def
    by (rule fold_update_frame
        [of next_local "\<lambda>n. n\<lparr>skip_temporary := True, belong_to_view := Some top_view\<rparr>"]) simp
  obtain h2 old1 where put: "put_tables_after_view table (query_tables lx) vtail (hm, thd_lex st) = (h2, old1)"
    by (cases "put_tables_after_view table (query_tables lx) vtail (hm, thd_lex st)") auto
  have om: "global_list hm (query_tables (thd_lex st)) (pre @ table # post)"
    using outer global_list_cong [of hm "heap st"] Nm by simp
  have im: "global_list hm (query_tables lx) vts"
    using inner global_list_cong [of hm "heap st"] Nm by simp
  have G2: "global_list h2 (query_tables (thd_lex st)) (pre @ table # vts @ post)"
    using put_tables_after_view_splice(1) [OF om im dist, of "thd_lex st"] put
    by (simp add: vtail_def)
  have L2: "next_local (h2 a) = next_local (heap st a)" for a
    using put_tables_after_view_splice(2) [OF om im dist, of "thd_lex st" a] put Lm
    by (simp add: vtail_def)
  have Q1: "query_tables old1 = query_tables (thd_lex st)"
    using put_tables_after_view_splice(3) [OF om im dist, of "thd_lex st"] put
    by (simp add: vtail_def)
  have loc2: "local_list h2 (table_list (select_lex lx)) ls"
    using loc local_list_cong [of h2 "heap st"] L2 by simp
  define h3 where "h3 = (if next_selects lx = []
                         then fold (\<lambda>a h. h(a := (h a)\<lparr>lock_type := lock_type (h2 table)\<rparr>)) ls h2
                         else h2)"
  have loop: "(if next_selects lx = []
               then for_next_local (\<lambda>tbl. tbl\<lparr>lock_type := lock_type (h2 table)\<rparr>)
                      (table_list (select_lex lx)) h2
               else Some h2) = Some h3"
    using for_next_local_list [OF loc2, of "\<lambda>tbl. tbl\<lparr>lock_type := lock_type (h2 table)\<rparr>"]
    by (simp add: h3_def)
  have N3: "next_global (h3 a) = next_global (h2 a)" for a
    unfolding h3_def
    using fold_update_frame [of next_global "\<lambda>n. n\<lparr>lock_type := lock_type (h2 table)\<rparr>" ls h2 a]
    by simp
  have L3: "next_local (h3 a) = next_local (h2 a)" for a
    unfolding h3_def
    using fold_update_frame [of next_local "\<lambda>n. n\<lparr>lock_type := lock_type (h2 table)\<rparr>" ls h2 a]
    by simp
  have G3: "global_list h3 (query_tables (thd_lex st)) (pre @ table # vts @ post)"
    using G2 global_list_cong [of h3 h2] N3 by simp
  have loc3: "local_list h3 (table_list (select_lex lx)) ls"
    using loc2 local_list_cong [of h3 h2] L3 by simp
  obtain h4 where mv: "merge_view table lx h3 = Some h4"
    using merge_view_total [OF loc3] by blast
  have G4: "global_list (h4(table := (h4 table)\<lparr>view := Some lx\<rparr>)) (query_tables (thd_lex st))
              (pre @ table # vts @ post)"
    using G3 merge_view_result(4) [OF mv]
      global_list_cong [of "h4(table := (h4 table)\<lparr>view := Some lx\<rparr>)" h3]
    by simp
  have G5: "global_list (h3(table := (h3 table)\<lparr>view := Some lx\<rparr>)) (query_tables (thd_lex st))
              (pre @ table # vts @ post)"
    using G3 global_list_cong [of "h3(table := (h3 table)\<lparr>view := Some lx\<rparr>)" h3]
    by simp
  have G6: "global_list (h3(table := (materialize_view lx (h3 table))\<lparr>view := Some lx'\<rparr>))
              (query_tables (thd_lex st)) (pre @ table # vts @ post)" for lx'
    using G3 global_list_cong [of "h3(table := (materialize_view lx (h3 table))\<lparr>view := Some lx'\<rparr>)" h3]
    by (simp add: materialize_view_def)
  have Q2: "query_tables (mark_outer_query env lx old1) = query_tables (thd_lex st)"
    using Q1 by (simp add: mark_outer_query_def)
  show ?thesis
    unfolding link_view_tables_def Let_def top_view_def [symmetric]
    using G4 G5 G6 Q1 Q2
    by (simp add: m put loop mv)
qed


subsection \<open>The resolver on a statement\<close>

lemmas make_view_defs = mysql_make_view_def link_view_tables_def put_tables_after_view_def
  merge_view_def materialize_view_def merge_allowed_def mark_outer_query_def view_access_error_def
  read_view_parameters_def make_view_err_def my_error_def Let_def

lemmas small_defs = small_parser_def record_of_v_def select_from_v_w_def parsed_query_of_v_def
  parsed_select_a_from_t_def plain_node_def

lemma small_example_resolved:
  "\<exists>st'. mysql_make_view small_parser record_of_v 10 select_from_v_w = Some (0, st') \<and>
     view (heap select_from_v_w 10) = None \<and>
     \<not> prelocking_placeholder (heap st' 10) \<and>
     effective_algorithm (heap st' 10) = VIEW_ALGORITHM_MERGE \<and> \<not> updatable (heap st' 10) \<and>
     parser_calls st' = [''select a from t, u'']"
  by (simp add: make_view_defs small_defs mark_view_tables.simps for_next_local.simps)

text \<open>
  C5: when an unresolved view node of the global table list is resolved (the record is
  read, the parser succeeds, access is granted), the resolver returns success and the
  tables of the view's query stand in the global list of the outer statement
  immediately after the view's node, in their order and before the tables that followed
  the view: the list \<^verbatim>\<open>pre, view, post\<close> becomes \<^verbatim>\<open>pre, view, tables of the view,
  post\<close>. This holds for the MERGE algorithm (and also when the view is materialized).
\<close>

theorem view_tables_spliced_after_view:
  "view (heap st table) = None \<Longrightarrow> parse_parameters parser = Some p \<Longrightarrow>
   yyparse env (p_query p) ((heap st)(table := read_view_parameters p (heap st table))) =
     (0, False, lex0, h) \<Longrightarrow>
   \<not> is_fatal_error st \<Longrightarrow> \<not> check_table_access env SHOW_VIEW_ACL (Some table) \<Longrightarrow>
   global_list h (query_tables (thd_lex st)) (pre @ table # post) \<Longrightarrow>
   global_list h (query_tables lex0) vts \<Longrightarrow>
   distinct (pre @ table # post @ vts) \<Longrightarrow>
   local_list h (table_list (select_lex lex0)) ls \<Longrightarrow>
   \<exists>st'. mysql_make_view env parser table st = Some (0, st') \<and>
         global_list (heap st') (query_tables (thd_lex st')) (pre @ table # vts @ post)"
proof -
  assume fresh: "view (heap st table) = None" and params: "parse_parameters parser = Some p"
    and parse: "yyparse env (p_query p) ((heap st)(table := read_view_parameters p (heap st table))) =
                  (0, False, lex0, h)"
    and nofatal: "\<not> is_fatal_error st"
    and access: "\<not> check_table_access env SHOW_VIEW_ACL (Some table)"
    and outer: "global_list h (query_tables (thd_lex st)) (pre @ table # post)"
    and inner: "global_list h (query_tables lex0) vts"
    and dist: "distinct (pre @ table # post @ vts)"
    and loc: "local_list h (table_list (select_lex lex0)) ls"
  define lx where "lx = lex0\<lparr>select_lex := (select_lex lex0)\<lparr>select_number := thd_select_number st + 1\<rparr>\<rparr>"
  define st1 where "st1 = st\<lparr>heap := h, thd_select_number := thd_select_number st + 1,
                            is_fatal_error := (is_fatal_error st \<or> False),
                            parser_calls := parser_calls st @ [p_query p]\<rparr>"
  have q: "query (read_view_parameters p (heap st table)) = p_query p"
    by (simp add: read_view_parameters_def)
  have acc: "view_access_error env table lx' s = None" for lx' and s :: "'a resolver_state_scheme"
    using access by (simp add: view_access_error_def Let_def)
  have run: "mysql_make_view env parser table st = link_view_tables env table lx st1"
    using fresh nofatal
    by (simp add: mysql_make_view_def params q parse Let_def lx_def st1_def acc)
  have o1: "global_list (heap st1) (query_tables (thd_lex st1)) (pre @ table # post)"
    using outer by (simp add: st1_def)
  have i1: "global_list (heap st1) (query_tables lx) vts"
    using inner by (simp add: st1_def lx_def)
  have l1: "local_list (heap st1) (table_list (select_lex lx)) ls"
    using loc by (simp add: st1_def lx_def)
  from link_view_tables_splice [OF o1 i1 dist l1, of env] run show ?thesis by simp
qed

text \<open>
  The C5 theorem on the small statement: the list 10, 11 becomes 10, 20, 21, 11.
\<close>

theorem view_tables_spliced_after_view_witness:
  "\<exists>st'. mysql_make_view small_parser record_of_v 10 select_from_v_w = Some (0, st') \<and>
         global_list (heap st') (query_tables (thd_lex st')) [10, 20, 21, 11]"
proof -
  let ?h = "(heap select_from_v_w)(20 := plain_node ''t'' (Some 21) (Some 21), 21 := plain_node ''u'' None None,
              10 := read_view_parameters (the (parse_parameters record_of_v)) (heap select_from_v_w 10))"
  let ?h' = "((heap select_from_v_w)
               (10 := read_view_parameters (the (parse_parameters record_of_v)) (heap select_from_v_w 10)))
               (20 := plain_node ''t'' (Some 21) (Some 21), 21 := plain_node ''u'' None None)"
  have h1: "view (heap select_from_v_w 10) = None" by (simp add: small_defs)
  have h2: "parse_parameters record_of_v = Some (the (parse_parameters record_of_v))"
    by (simp add: small_defs)
  have h3: "yyparse small_parser (p_query (the (parse_parameters record_of_v)))
              ((heap select_from_v_w)
                 (10 := read_view_parameters (the (parse_parameters record_of_v)) (heap select_from_v_w 10))) =
            (0, False, parsed_query_of_v, ?h')"
    by (simp add: small_parser_def)
  have h4: "\<not> is_fatal_error select_from_v_w" by (simp add: small_defs)
  have h5: "\<not> check_table_access small_parser SHOW_VIEW_ACL (Some 10)" by (simp add: small_defs)
  have h6: "global_list ?h' (query_tables (thd_lex select_from_v_w)) ([] @ 10 # [11])"
    by (simp add: global_list_def small_defs read_view_parameters_def)
  have h7: "global_list ?h' (query_tables parsed_query_of_v) [20, 21]"
    by (simp add: global_list_def small_defs)
  have h8: "distinct ([] @ 10 # [11] @ [20, 21 :: nat])" by simp
  have h9: "local_list ?h' (table_list (select_lex parsed_query_of_v)) [20, 21]"
    by (simp add: local_list_def small_defs)
  show ?thesis
    using view_tables_spliced_after_view [OF h1 h2 h3 h4 h5 h6 h7 h8 h9] by simp
qed


text \<open>
  The C3 theorem on the small statement: the first resolution calls the parser once, the
  second not at all.
\<close>

theorem resolution_idempotent_witness:
  "\<exists>st'. mysql_make_view small_parser record_of_v 10 select_from_v_w = Some (0, st')
     \<and> parser_calls st' = [''select a from t, u'']
     \<and> view (heap st' 10) \<noteq> None
     \<and> mysql_make_view small_parser record_of_v 10 st' = Some (0, st')
     \<and> parser_calls (snd (the (mysql_make_view small_parser record_of_v 10 st'))) =
         [''select a from t, u'']"
proof -
  from small_example_resolved obtain st' where
    r: "mysql_make_view small_parser record_of_v 10 select_from_v_w = Some (0, st')"
    and p: "parser_calls st' = [''select a from t, u'']"
    by blast
  from resolution_idempotent [of select_from_v_w 10 small_parser record_of_v st' small_parser record_of_v]
    r p show ?thesis by simp
qed

lemma register_updatable_algorithm:
  assumes frm: "check_old_frm env thd vw mode = Inr vw1"
    and reg: "mysql_register_view env thd lx vw mode = (r, thd', vw')"
    and upd: "updatable_view vw'"
  shows "algorithm vw' \<noteq> VIEW_ALGORITHM_TMPTABLE"
proof -
  have c: "compute_updatable env lx \<Longrightarrow> stored_algorithm lx \<noteq> VIEW_ALGORITHM_TMPTABLE"
    by (auto simp: compute_updatable_def Let_def split: if_splits)
  from reg upd c show ?thesis
    by (auto simp: register_after_frm [OF frm] Let_def sql_create_definition_file_def
        split: if_splits option.splits)
qed

text \<open>
  C1: a view definition written by CREATE or ALTER with the updatable flag set does not
  have the algorithm TEMPTABLE; a node resolved by \<^verbatim>\<open>mysql_make_view\<close> with the
  effective algorithm TEMPTABLE is not updatable, and an updatable one is merged. The
  reverse does not hold: the small statement resolves its view as merged and not
  updatable.
\<close>

theorem updatable_never_temptable:
  "(check_old_frm env thd vw mode = Inr vw1 \<and>
    mysql_register_view env thd lx vw mode = (r, thd', vw') \<and> updatable_view vw' \<longrightarrow>
      algorithm vw' \<noteq> VIEW_ALGORITHM_TMPTABLE)
   \<and> (view (heap st table) = None \<and>
       mysql_make_view renv parser table st = Some (0, st') \<and>
       \<not> prelocking_placeholder (heap st' table) \<longrightarrow>
         (effective_algorithm (heap st' table) = VIEW_ALGORITHM_TMPTABLE \<longrightarrow>
            \<not> updatable (heap st' table)) \<and>
         (updatable (heap st' table) \<longrightarrow>
            effective_algorithm (heap st' table) = VIEW_ALGORITHM_MERGE))
   \<and> (\<exists>st''. mysql_make_view small_parser record_of_v 10 select_from_v_w = Some (0, st'') \<and>
         effective_algorithm (heap st'' 10) = VIEW_ALGORITHM_MERGE \<and> \<not> updatable (heap st'' 10))"
  using register_updatable_algorithm [of env thd vw mode vw1 lx r thd' vw']
    make_view_resolved [of st table renv parser st'] small_example_resolved
  by blast

text \<open>
  The C1 theorem on the definition \<^verbatim>\<open>SELECT a FROM t\<close> and on the small statement.
\<close>

theorem updatable_never_temptable_witness:
  "updatable_view (snd (snd (mysql_register_view plain_env plain_thd select_a_from_t
                               (plain_table ''v'') VIEW_CREATE_NEW)))
   \<and> algorithm (snd (snd (mysql_register_view plain_env plain_thd select_a_from_t
                             (plain_table ''v'') VIEW_CREATE_NEW))) \<noteq> VIEW_ALGORITHM_TMPTABLE
   \<and> (\<exists>st'. mysql_make_view small_parser record_of_v 10 select_from_v_w = Some (0, st') \<and>
         (effective_algorithm (heap st' 10) = VIEW_ALGORITHM_TMPTABLE \<longrightarrow> \<not> updatable (heap st' 10)))"
proof -
  let ?reg = "mysql_register_view plain_env plain_thd select_a_from_t (plain_table ''v'') VIEW_CREATE_NEW"
  have h1: "check_old_frm plain_env plain_thd (plain_table ''v'') VIEW_CREATE_NEW = Inr (plain_table ''v'')"
    by (simp add: check_old_frm_def example_defs)
  have h2: "?reg = (fst ?reg, fst (snd ?reg), snd (snd ?reg))" by simp
  have h3: "updatable_view (snd (snd ?reg))"
    by (simp add: create_view_defs example_defs)
  from small_example_resolved obtain st' where
    r: "mysql_make_view small_parser record_of_v 10 select_from_v_w = Some (0, st')"
    and f: "view (heap select_from_v_w 10) = None" and np: "\<not> prelocking_placeholder (heap st' 10)"
    by blast
  show ?thesis
    using updatable_never_temptable [of plain_env plain_thd "plain_table ''v''" VIEW_CREATE_NEW
        "plain_table ''v''" select_a_from_t "fst ?reg" "fst (snd ?reg)" "snd (snd ?reg)"
        select_from_v_w 10 small_parser record_of_v st']
      h1 h2 h3 r f np
    by blast
qed

end
